theory Spec2Isabelle
  imports Main "HOL-Library.AList"
begin

section \<open>Documents, collections and the driver's conditional update\<close>

text \<open>
  Product documents are dictionaries. A field holds a value of one of the kinds the
  repository code handles; a \<open>Decimal\<close> is represented by its string form, so that
  \<open>str(v)\<close> of a decimal is the same text as a string value. Quantities are Python
  integers, hence unbounded.
\<close>

type_synonym object_id = string

datatype val =
    VNone
  | VBool bool
  | VInt int
  | VStr string
  | VDecimal string
  | VTime nat
  | VId object_id
  | VList "val list"
  | VDict "(string \<times> val) list"
  | VModel "(string \<times> val) list"

type_synonym doc = "string \<rightharpoonup> val"

datatype exn =
    ValueError
  | RuntimeError
  | ReservationError
  | HTTPException nat
  | PyMongoError
  | OtherException

text \<open>
  A collection maps the \<open>_id\<close> of a document to the document. \<open>failing\<close> is the
  condition of the database connection: when it holds an exception, every call of the
  driver raises it and changes nothing.
\<close>

record collection =
  docs :: "object_id \<rightharpoonup> doc"
  failing :: "exn option"

text \<open>
  The filter and the update document of \<open>find_one_and_update\<close>, with the operators
  the stock code uses: equality on \<open>_id\<close>, \<open>$gte\<close> on integer fields, \<open>$set\<close> and
  \<open>$inc\<close>. Entries are kept in the order the code assigns them.
\<close>

record query =
  q_id :: object_id
  q_gte :: "(string \<times> int) list"

record update_op =
  u_set :: "(string \<times> val) list"
  u_inc :: "(string \<times> int) list"

fun gte_holds :: "doc \<Rightarrow> string \<times> int \<Rightarrow> bool" where
  "gte_holds d (f, n) = (case d f of Some (VInt m) \<Rightarrow> n \<le> m | _ \<Rightarrow> False)"

definition matches :: "doc \<Rightarrow> (string \<times> int) list \<Rightarrow> bool" where
  "matches d conds = list_all (gte_holds d) conds"

fun apply_set :: "(string \<times> val) list \<Rightarrow> doc \<Rightarrow> doc" where
  "apply_set [] d = d"
| "apply_set ((f, v) # rest) d = apply_set rest (d(f \<mapsto> v))"

text \<open>
  \<open>$inc\<close> creates a missing field with the increment as its value and is refused by
  the server on a field that is not a number.
\<close>

fun apply_inc :: "(string \<times> int) list \<Rightarrow> doc \<Rightarrow> doc option" where
  "apply_inc [] d = Some d"
| "apply_inc ((f, n) # rest) d =
     (case d f of
        None \<Rightarrow> apply_inc rest (d(f \<mapsto> VInt n))
      | Some (VInt m) \<Rightarrow> apply_inc rest (d(f \<mapsto> VInt (m + n)))
      | Some _ \<Rightarrow> None)"

text \<open>
  One indivisible step: look the document up, check the filter, write the update.
  The result is the document as it was before the update, or nothing when no document
  matched.
\<close>

definition find_one_and_update ::
  "collection \<Rightarrow> query \<Rightarrow> update_op \<Rightarrow> exn + (doc option \<times> collection)" where
  "find_one_and_update c q u =
     (case failing c of
        Some e \<Rightarrow> Inl e
      | None \<Rightarrow>
          (case docs c (q_id q) of
             None \<Rightarrow> Inr (None, c)
           | Some d \<Rightarrow>
               if \<not> matches d (q_gte q) then Inr (None, c)
               else (case apply_inc (u_inc u) (apply_set (u_set u) d) of
                       None \<Rightarrow> Inl PyMongoError
                     | Some d' \<Rightarrow> Inr (Some d, c\<lparr>docs := (docs c)(q_id q \<mapsto> d')\<rparr>))))"

section \<open>ProductRepository.update_stock_atomic\<close>

text \<open>
  The filter the method builds. With \<open>is_reservation\<close>, a positive change asks for
  \<open>stock_quantity \<ge> quantity_change\<close> and a negative one for
  \<open>reserved_stock \<ge> |quantity_change|\<close>; without it, a negative change asks for both
  fields to be at least \<open>|quantity_change|\<close> and a non-negative one asks for nothing.
\<close>

definition stock_query :: "object_id \<Rightarrow> int \<Rightarrow> bool \<Rightarrow> query" where
  "stock_query product_id quantity_change is_reservation =
     \<lparr>q_id = product_id,
      q_gte =
        (if is_reservation then
           (if quantity_change > 0 then [(''stock_quantity'', quantity_change)] else []) @
           (if quantity_change < 0 then [(''reserved_stock'', \<bar>quantity_change\<bar>)] else [])
         else
           (if quantity_change < 0
            then [(''stock_quantity'', \<bar>quantity_change\<bar>), (''reserved_stock'', \<bar>quantity_change\<bar>)]
            else []))\<rparr>"

definition stock_update_op :: "nat \<Rightarrow> int \<Rightarrow> bool \<Rightarrow> update_op" where
  "stock_update_op now quantity_change is_reservation =
     \<lparr>u_set = [(''updated_at'', VTime now)],
      u_inc =
        (if is_reservation then [(''reserved_stock'', quantity_change)]
         else if quantity_change < 0
           then [(''stock_quantity'', quantity_change), (''reserved_stock'', quantity_change)]
           else [(''stock_quantity'', quantity_change)])\<rparr>"

text \<open>
  \<open>handle\<close> stands for \<open>BaseRepository._handle_db_exception\<close>, which is not among the
  sources: \<open>Inl e\<close> when it raises \<open>e\<close>, \<open>Inr ()\<close> when it returns. \<open>now\<close> is the value
  of \<open>datetime.utcnow()\<close>.
\<close>

definition update_stock_atomic ::
  "(exn \<Rightarrow> exn + unit) \<Rightarrow> nat \<Rightarrow> collection \<Rightarrow> object_id \<Rightarrow> int \<Rightarrow> bool
     \<Rightarrow> (exn + bool) \<times> collection" where
  "update_stock_atomic handle now c product_id quantity_change is_reservation =
     (case find_one_and_update c
             (stock_query product_id quantity_change is_reservation)
             (stock_update_op now quantity_change is_reservation) of
        Inr (result, c') \<Rightarrow> (Inr (result \<noteq> None), c')
      | Inl e \<Rightarrow>
          (case handle e of
             Inl e' \<Rightarrow> (Inl e', c)
           | Inr _ \<Rightarrow> (Inr False, c)))"

text \<open>
  Modelled from the spec: \<open>BaseRepository._handle_db_exception\<close> is missing from the
  sources. The specification has infrastructure failures propagate as errors, and the
  comment at its call in \<open>ProductRepository.update\<close> says it logs and raises; the log is
  not modelled.
\<close>

definition handle_db_exception :: "exn \<Rightarrow> exn + unit" where
  "handle_db_exception e = Inl e"

subsection \<open>Reading the ledger fields\<close>

definition int_field :: "string \<Rightarrow> doc \<Rightarrow> int option" where
  "int_field f d = (case d f of Some (VInt n) \<Rightarrow> Some n | _ \<Rightarrow> None)"

definition stock_quantity :: "doc \<Rightarrow> int option" where
  "stock_quantity d = int_field ''stock_quantity'' d"

definition reserved_stock :: "doc \<Rightarrow> int option" where
  "reserved_stock d = int_field ''reserved_stock'' d"

definition available_stock :: "doc \<Rightarrow> int option" where
  "available_stock d =
     (case (stock_quantity d, reserved_stock d) of
        (Some s, Some r) \<Rightarrow> Some (s - r)
      | _ \<Rightarrow> None)"

definition stock_of :: "collection \<Rightarrow> object_id \<Rightarrow> int option" where
  "stock_of c p = (case docs c p of None \<Rightarrow> None | Some d \<Rightarrow> stock_quantity d)"

definition reserved_of :: "collection \<Rightarrow> object_id \<Rightarrow> int option" where
  "reserved_of c p = (case docs c p of None \<Rightarrow> None | Some d \<Rightarrow> reserved_stock d)"


section \<open>The stock ledger seen through the atomic update\<close>

text \<open>
  The ledger invariant of a product document: both quantities are integers and the
  reserved quantity does not exceed the physical one.
\<close>

definition doc_inv :: "doc \<Rightarrow> bool" where
  "doc_inv d =
     (case (stock_quantity d, reserved_stock d) of
        (Some s, Some r) \<Rightarrow> r \<le> s
      | _ \<Rightarrow> False)"

definition ledger_inv :: "collection \<Rightarrow> bool" where
  "ledger_inv c = (\<forall>d \<in> ran (docs c). doc_inv d)"

text \<open>
  A call of \<open>update_stock_atomic\<close> is a product, a change and the reservation flag.
  The four uses of the method are: reserve (\<open>(p, q, True)\<close> with \<open>q > 0\<close>), release a
  reservation (\<open>(p, - q, True)\<close>), confirm a sale (\<open>(p, - q, False)\<close>) and restock
  (\<open>(p, q, False)\<close>). Each call is one indivisible step of the database, so every
  concurrent execution of several calls is a run of them in some order.
\<close>

type_synonym stock_call = "object_id \<times> int \<times> bool"

definition available_of :: "collection \<Rightarrow> object_id \<Rightarrow> int option" where
  "available_of c p = (case docs c p of None \<Rightarrow> None | Some d \<Rightarrow> available_stock d)"

text \<open>
  A reserve request fits when it asks for no more than the available stock at the time
  it is made; the other calls always fit.
\<close>

fun fits_available :: "collection \<Rightarrow> stock_call \<Rightarrow> bool" where
  "fits_available c (p, q, is_reservation) =
     (if is_reservation \<and> 0 < q
      then (case available_of c p of None \<Rightarrow> True | Some a \<Rightarrow> q \<le> a)
      else True)"

fun run_calls :: "(exn \<Rightarrow> exn + unit) \<Rightarrow> nat \<Rightarrow> collection \<Rightarrow> stock_call list \<Rightarrow> collection" where
  "run_calls h now c [] = c"
| "run_calls h now c ((p, q, b) # cs) = run_calls h now (snd (update_stock_atomic h now c p q b)) cs"

fun reserves_fit :: "(exn \<Rightarrow> exn + unit) \<Rightarrow> nat \<Rightarrow> collection \<Rightarrow> stock_call list \<Rightarrow> bool" where
  "reserves_fit h now c [] = True"
| "reserves_fit h now c ((p, q, b) # cs) =
     (fits_available c (p, q, b) \<and> reserves_fit h now (snd (update_stock_atomic h now c p q b)) cs)"

text \<open>Reserve attempts on one product, one after the other, with their results.\<close>

fun reserve_attempts ::
  "(exn \<Rightarrow> exn + unit) \<Rightarrow> nat \<Rightarrow> collection \<Rightarrow> object_id \<Rightarrow> int list \<Rightarrow> (exn + bool) list \<times> collection" where
  "reserve_attempts h now c p [] = ([], c)"
| "reserve_attempts h now c p (q # qs) =
     (case update_stock_atomic h now c p q True of
        (res, c') \<Rightarrow> (case reserve_attempts h now c' p qs of (rs, c'') \<Rightarrow> (res # rs, c'')))"

text \<open>
  The filter of a call, read on a document whose quantities are \<open>s\<close> on hand and \<open>r\<close>
  reserved: a reserve of \<open>q\<close> asks for \<open>q \<le> s\<close>, a release of \<open>- q\<close> for \<open>- q \<le> r\<close>, a
  confirmation of \<open>- q\<close> for \<open>- q \<le> s\<close> and \<open>- q \<le> r\<close>, and a restock for nothing.
\<close>

definition guard_ok :: "int \<Rightarrow> int \<Rightarrow> int \<Rightarrow> bool \<Rightarrow> bool" where
  "guard_ok s r q b =
     (if b then \<not> (0 < q \<and> s < q) \<and> \<not> (q < 0 \<and> r < - q)
      else \<not> (q < 0 \<and> (s < - q \<or> r < - q)))"

text \<open>Insufficient stock: the product carries both quantities and the filter fails.\<close>

definition insufficient_stock :: "collection \<Rightarrow> object_id \<Rightarrow> int \<Rightarrow> bool \<Rightarrow> bool" where
  "insufficient_stock c p q b =
     (case (stock_of c p, reserved_of c p) of
        (Some s, Some r) \<Rightarrow> \<not> guard_ok s r q b
      | _ \<Rightarrow> False)"

text \<open>Example data: a product with given quantities, alone in its collection.\<close>

definition product_doc :: "int \<Rightarrow> int \<Rightarrow> doc" where
  "product_doc s r = [''stock_quantity'' \<mapsto> VInt s, ''reserved_stock'' \<mapsto> VInt r]"

definition single_product :: "object_id \<Rightarrow> int \<Rightarrow> int \<Rightarrow> collection" where
  "single_product p s r = \<lparr>docs = [p \<mapsto> product_doc s r], failing = None\<rparr>"

definition unreachable_db :: "collection \<Rightarrow> collection" where
  "unreachable_db c = c\<lparr>failing := Some PyMongoError\<rparr>"

section \<open>ProductRepository.update\<close>

text \<open>
  A payload is a Python dictionary: keys in insertion order, each key once.
  \<open>pop\<close> is \<open>dict.pop(key, default)\<close>.
\<close>

type_synonym payload = "(string \<times> val) list"

definition pop :: "string \<Rightarrow> val \<Rightarrow> payload \<Rightarrow> val \<times> payload" where
  "pop k dflt data = (case map_of data k of None \<Rightarrow> (dflt, data) | Some v \<Rightarrow> (v, AList.delete k data))"

text \<open>
  What \<open>update\<close> uses and the sources do not hold: \<open>_to_objectid\<close> and the
  \<open>_prepare_data_for_db\<close> of \<open>BaseRepository\<close>, the validation of a price table by
  \<open>ProductPrices\<close> (its result in JSON form, or the exception it raises), the JSON form
  of a pydantic model and the price-history entry built from a user, a reason and the
  prices.
\<close>

record product_env =
  to_objectid :: "string \<Rightarrow> object_id option"
  base_prepare :: "payload \<Rightarrow> payload"
  validate_prices :: "val \<Rightarrow> exn + val"
  model_dump :: "val \<Rightarrow> val"
  price_history_entry :: "val \<Rightarrow> val \<Rightarrow> val \<Rightarrow> val"

fun decimal_str :: "val \<Rightarrow> val" where
  "decimal_str (VDecimal s) = VStr s"
| "decimal_str v = v"

definition prices_to_db :: "(val \<Rightarrow> val) \<Rightarrow> val \<Rightarrow> val" where
  "prices_to_db dump v =
     (case v of
        VModel m \<Rightarrow> dump (VModel m)
      | VDict kvs \<Rightarrow> VDict (map (\<lambda>(k, x). (k, decimal_str x)) kvs)
      | _ \<Rightarrow> v)"

definition history_entry_to_db :: "val \<Rightarrow> val" where
  "history_entry_to_db entry =
     (case entry of
        VDict kvs \<Rightarrow>
          (case map_of kvs ''prices'' of
             Some (VDict ps) \<Rightarrow>
               VDict (AList.update ''prices'' (VDict (map (\<lambda>(k, x). (k, decimal_str x)) ps)) kvs)
           | _ \<Rightarrow> entry)
      | _ \<Rightarrow> entry)"

definition prepare_data_for_db :: "product_env \<Rightarrow> payload \<Rightarrow> payload" where
  "prepare_data_for_db env data =
     (let prepared = base_prepare env data;
          prepared =
            (case map_of prepared ''prices'' of
               Some v \<Rightarrow> AList.update ''prices'' (prices_to_db (model_dump env) v) prepared
             | None \<Rightarrow> prepared)
      in case map_of prepared ''price_history'' of
           Some (VList entries) \<Rightarrow>
             AList.update ''price_history'' (VList (map history_entry_to_db entries)) prepared
         | _ \<Rightarrow> prepared)"

definition protected_fields :: "string list" where
  "protected_fields = [''_id'', ''id'', ''created_at'', ''price_history'', ''reserved_stock'']"

text \<open>The loop that copies the prepared fields into the \<open>$set\<close> payload.\<close>

fun copy_unprotected :: "payload \<Rightarrow> payload \<Rightarrow> payload" where
  "copy_unprotected [] update_payload = update_payload"
| "copy_unprotected ((key, value) # rest) update_payload =
     copy_unprotected rest
       (if key \<notin> set protected_fields then AList.update key value update_payload
        else update_payload)"

text \<open>
  The price part of the update: nothing when the payload has no prices or the validated
  prices equal the stored ones, otherwise the new \<open>prices\<close> field and the history
  entry to push. A failing validation is the \<open>ValueError\<close> the method raises.
\<close>

definition price_changes ::
  "product_env \<Rightarrow> doc \<Rightarrow> val \<Rightarrow> val \<Rightarrow> val \<Rightarrow> exn + (payload \<times> val option)" where
  "price_changes env current_doc new_prices_data user_id_updater price_update_reason =
     (if new_prices_data = VNone then Inr ([], None)
      else (case validate_prices env new_prices_data of
              Inl e \<Rightarrow> Inl ValueError
            | Inr new_prices \<Rightarrow>
                if Some new_prices \<noteq> current_doc ''prices''
                then Inr ([(''prices'', new_prices)],
                          Some (price_history_entry env user_id_updater price_update_reason new_prices))
                else Inr ([], None)))"

text \<open>
  \<open>update_one\<close> with \<open>$set\<close> and, for a history entry, \<open>$push\<close> at position 0 cut
  to 50 entries; the server refuses \<open>$push\<close> on a field that is not an array. The
  result is the number of documents matched.
\<close>

definition apply_push :: "val option \<Rightarrow> doc \<Rightarrow> doc option" where
  "apply_push entry d =
     (case entry of
        None \<Rightarrow> Some d
      | Some e \<Rightarrow>
          (case d ''price_history'' of
             None \<Rightarrow> Some (d(''price_history'' \<mapsto> VList [e]))
           | Some (VList es) \<Rightarrow> Some (d(''price_history'' \<mapsto> VList (take 50 (e # es))))
           | Some _ \<Rightarrow> None))"

definition update_one ::
  "collection \<Rightarrow> object_id \<Rightarrow> payload \<Rightarrow> val option \<Rightarrow> exn + (nat \<times> collection)" where
  "update_one c obj_id set_payload push_entry =
     (case failing c of
        Some e \<Rightarrow> Inl e
      | None \<Rightarrow>
          (case docs c obj_id of
             None \<Rightarrow> Inr (0, c)
           | Some d \<Rightarrow>
               (case apply_push push_entry (apply_set set_payload d) of
                  None \<Rightarrow> Inl PyMongoError
                | Some d' \<Rightarrow> Inr (1, c\<lparr>docs := (docs c)(obj_id \<mapsto> d')\<rparr>))))"

text \<open>
  Modelled from the spec: \<open>BaseRepository.get_by_id\<close> is missing from the sources; it
  reads the document with the given \<open>_id\<close>, and a failure of the database is an error
  for the caller.
\<close>

definition get_by_id :: "collection \<Rightarrow> object_id \<Rightarrow> exn + doc option" where
  "get_by_id c obj_id = (case failing c of Some e \<Rightarrow> Inl e | None \<Rightarrow> Inr (docs c obj_id))"

text \<open>
  The method, on a dictionary payload. After the handler of a database exception the
  method re-raises; \<open>handle\<close> is as in \<open>update_stock_atomic\<close>.
\<close>

definition update ::
  "product_env \<Rightarrow> (exn \<Rightarrow> exn + unit) \<Rightarrow> nat \<Rightarrow> collection \<Rightarrow> string \<Rightarrow> payload
     \<Rightarrow> (exn + doc option) \<times> collection" where
  "update env handle now c ident data_in =
     (case to_objectid env ident of
        None \<Rightarrow> (Inr None, c)
      | Some obj_id \<Rightarrow>
          (case get_by_id c obj_id of
             Inl e \<Rightarrow> (Inl e, c)
           | Inr None \<Rightarrow> (Inr None, c)
           | Inr (Some current_doc) \<Rightarrow>
               (case pop ''price_update_reason'' (VStr ''Update via API'') data_in of
                  (price_update_reason, d1) \<Rightarrow>
               (case pop ''user_id'' VNone d1 of
                  (user_id_updater, d2) \<Rightarrow>
               (case pop ''prices'' VNone d2 of
                  (new_prices_data, update_data_dict) \<Rightarrow>
               (case price_changes env current_doc new_prices_data user_id_updater
                       price_update_reason of
                  Inl e \<Rightarrow> (Inl e, c)
                | Inr (price_payload, push_payload) \<Rightarrow>
                    (let update_payload =
                           copy_unprotected (prepare_data_for_db env update_data_dict) price_payload
                     in if update_payload = [] \<and> push_payload = None
                        then (Inr (Some current_doc), c)
                        else
                          (case update_one c obj_id
                                  (AList.update ''updated_at'' (VTime now) update_payload)
                                  push_payload of
                             Inl e \<Rightarrow>
                               (case handle e of Inl e' \<Rightarrow> (Inl e', c) | Inr _ \<Rightarrow> (Inl e, c))
                           | Inr (matched_count, c') \<Rightarrow>
                               if matched_count = 0 then (Inr None, c')
                               else (get_by_id c' obj_id, c')))))))))"

text \<open>Reading one field of a stored product.\<close>

definition field_of :: "collection \<Rightarrow> object_id \<Rightarrow> string \<Rightarrow> val option" where
  "field_of c p f = (case docs c p of None \<Rightarrow> None | Some d \<Rightarrow> d f)"

text \<open>Example data: collaborators that change nothing and accept every price table.\<close>

definition plain_env :: product_env where
  "plain_env =
     \<lparr>to_objectid = Some, base_prepare = id, validate_prices = Inr, model_dump = id,
      price_history_entry = (\<lambda>user reason prices. VDict [(''user_id'', user), (''reason'', reason), (''prices'', prices)])\<rparr>"

section \<open>Orders, injected services and the record of their calls\<close>

text \<open>
  The fields of a stored order that the order service reads. An exact decimal amount is
  kept as its text.
\<close>

record order =
  order_id :: object_id
  order_ref :: string
  customer_id :: object_id
  status :: string
  items :: "(object_id \<times> int) list"
  total_amount :: string
  currency :: "string option"
  actual_delivery_date :: "nat option"

text \<open>The request for a transaction record, \<open>TransactionCreateInternal\<close>.\<close>

record transaction_request =
  trx_type :: string
  trx_amount :: string
  trx_currency :: string
  trx_description :: string
  trx_status :: string
  associated_order_id :: object_id
  associated_user_id :: object_id

text \<open>
  The order service receives its repositories and services as arguments and none of
  them is among the sources, so they are arguments of the model as well: each one is a
  function on the state \<open>'w\<close> of the world outside the order service, returning what
  the call returns, or the exception it raises, and the next state.
\<close>

record 'w services =
  order_to_objectid :: "string \<Rightarrow> object_id option"
  order_get_by_id :: "object_id \<Rightarrow> 'w \<Rightarrow> exn + order option"
  order_create :: "payload \<Rightarrow> 'w \<Rightarrow> (exn + order) \<times> 'w"
  order_update :: "object_id \<Rightarrow> payload \<Rightarrow> 'w \<Rightarrow> (exn + order option) \<times> 'w"
  reserve_stock :: "string \<Rightarrow> object_id \<Rightarrow> int \<Rightarrow> 'w \<Rightarrow> (exn + bool) \<times> 'w"
  release_or_confirm_single :: "string \<Rightarrow> string \<Rightarrow> bool \<Rightarrow> 'w \<Rightarrow> (exn + unit) \<times> 'w"
  release_reservation :: "string \<Rightarrow> 'w \<Rightarrow> (exn + unit) \<times> 'w"
  confirm_reservation :: "string \<Rightarrow> 'w \<Rightarrow> (exn + unit) \<times> 'w"
  record_transaction :: "transaction_request \<Rightarrow> 'w \<Rightarrow> (exn + object_id) \<times> 'w"
  mark_items_as_sold :: "object_id \<Rightarrow> (object_id \<times> int) list \<Rightarrow> 'w \<Rightarrow> (exn + unit) \<times> 'w"
  utcnow :: nat
  default_currency :: string

text \<open>
  Every call that can change something is written down, oldest first, so that which
  requests were issued, in which order and how often, can be stated.
\<close>

datatype call =
    ReserveStock string object_id int
  | ReleaseOrConfirmSingle string string bool
  | ReleaseReservation string
  | ConfirmReservation string
  | OrderCreate payload
  | OrderUpdate object_id payload
  | RecordTransaction transaction_request
  | MarkItemsAsSold object_id "(object_id \<times> int) list"

record 'w sys =
  world :: 'w
  calls :: "call list"

definition invoke :: "call \<Rightarrow> ('w \<Rightarrow> 'a \<times> 'w) \<Rightarrow> 'w sys \<Rightarrow> 'a \<times> 'w sys" where
  "invoke c f st = (case f (world st) of (r, w') \<Rightarrow> (r, \<lparr>world = w', calls = calls st @ [c]\<rparr>))"

text \<open>
  \<open>asyncio.gather(*tasks, return_exceptions=True)\<close>: every task runs and the results,
  exceptions among them, come back in the order of the tasks. The tasks are run one
  after the other in that order.
\<close>

fun gather :: "('a \<Rightarrow> call) \<Rightarrow> ('a \<Rightarrow> 'w \<Rightarrow> 'r \<times> 'w) \<Rightarrow> 'a list \<Rightarrow> 'w sys \<Rightarrow> 'r list \<times> 'w sys" where
  "gather mk f [] st = ([], st)"
| "gather mk f (x # xs) st =
     (case invoke (mk x) (f x) st of
        (r, st') \<Rightarrow> (case gather mk f xs st' of (rs, st'') \<Rightarrow> (r # rs, st'')))"

section \<open>OrderService.create_order, from the reservation on\<close>

text \<open>
  The first part of \<open>create_order\<close> validates the customer, prices the items and draws
  the order reference; it writes nothing to the ledger or to the orders and raises
  before any reservation when it fails. The model starts after it, from its results:
  the order reference, which is also the \<open>reservation_id\<close>, the list \<open>stock_updates\<close>
  of products with the negated quantities, and the dictionary of the order to save.
\<close>

text \<open>A reserve result counts as failed when it is an exception or not true.\<close>

fun failed :: "exn + bool \<Rightarrow> bool" where
  "failed (Inl e) = True"
| "failed (Inr res) = (\<not> res)"

definition reserve_tasks ::
  "'w services \<Rightarrow> string \<Rightarrow> (object_id \<times> int) list \<Rightarrow> 'w sys \<Rightarrow> (exn + bool) list \<times> 'w sys" where
  "reserve_tasks sv reservation_id stock_updates st =
     gather (\<lambda>(pid, qty). ReserveStock reservation_id pid \<bar>qty\<bar>)
            (\<lambda>(pid, qty). reserve_stock sv reservation_id pid \<bar>qty\<bar>) stock_updates st"

definition failed_reservations ::
  "(object_id \<times> int) list \<Rightarrow> (exn + bool) list \<Rightarrow> (object_id \<times> int) list" where
  "failed_reservations stock_updates reserve_results =
     map fst (filter (\<lambda>(info, res). failed res) (zip stock_updates reserve_results))"

definition successful_products ::
  "(object_id \<times> int) list \<Rightarrow> (exn + bool) list \<Rightarrow> object_id list" where
  "successful_products stock_updates reserve_results =
     map (\<lambda>(info, res). fst info)
       (filter (\<lambda>(info, res). \<not> failed res) (zip stock_updates reserve_results))"

definition release_tasks :: "'w services \<Rightarrow> string \<Rightarrow> object_id list \<Rightarrow> 'w sys \<Rightarrow> (exn + unit) list \<times> 'w sys" where
  "release_tasks sv reservation_id products_to_release st =
     gather (\<lambda>pid. ReleaseOrConfirmSingle reservation_id pid False)
            (\<lambda>pid. release_or_confirm_single sv reservation_id pid False) products_to_release st"

definition create_order ::
  "'w services \<Rightarrow> string \<Rightarrow> (object_id \<times> int) list \<Rightarrow> payload \<Rightarrow> 'w sys \<Rightarrow> (exn + order) \<times> 'w sys" where
  "create_order sv reservation_id stock_updates order_data_dict st =
     (case reserve_tasks sv reservation_id stock_updates st of
        (reserve_results, st1) \<Rightarrow>
          if failed_reservations stock_updates reserve_results \<noteq> [] then
            (Inl (HTTPException 409),
             if successful_products stock_updates reserve_results \<noteq> []
             then snd (release_tasks sv reservation_id
                         (successful_products stock_updates reserve_results) st1)
             else st1)
          else
            (case invoke (OrderCreate order_data_dict) (order_create sv order_data_dict) st1 of
               (Inr created_order_db, st2) \<Rightarrow> (Inr created_order_db, st2)
             | (Inl e, st2) \<Rightarrow>
                 if e = ValueError \<or> e = RuntimeError then
                   (case invoke (ReleaseReservation reservation_id) (release_reservation sv reservation_id) st2 of
                      (Inl e', st3) \<Rightarrow> (Inl e', st3)
                    | (Inr _, st3) \<Rightarrow> (Inl (HTTPException 500), st3))
                 else (Inl e, st2)))"

section \<open>OrderService.update_order_status\<close>

definition valid_transitions :: "(string \<times> string list) list" where
  "valid_transitions =
     [(''pending'', [''confirmed'', ''processing'', ''cancelled'', ''failed'']),
      (''confirmed'', [''processing'', ''awaiting_shipment'', ''cancelled'', ''failed'']),
      (''processing'', [''awaiting_shipment'', ''shipped'', ''cancelled'', ''failed'']),
      (''awaiting_shipment'', [''shipped'', ''cancelled'', ''failed'']),
      (''shipped'', [''delivered'', ''returned'', ''failed'']),
      (''delivered'', [''returned'']),
      (''cancelled'', []),
      (''failed'', []),
      (''returned'', [])]"

text \<open>\<open>valid_transitions.get(current_status, [])\<close>.\<close>

definition allowed_targets :: "string \<Rightarrow> string list" where
  "allowed_targets current_status =
     (case map_of valid_transitions current_status of None \<Rightarrow> [] | Some targets \<Rightarrow> targets)"

text \<open>
  Step 1, the reservation. Only a \<open>ReservationError\<close> is caught; the result is the
  exception that leaves the method, if any.
\<close>

definition caught_reservation_error :: "(exn + unit) \<times> 'w sys \<Rightarrow> exn option \<times> 'w sys" where
  "caught_reservation_error r =
     (case r of
        (Inl e, st') \<Rightarrow> (if e = ReservationError then None else Some e, st')
      | (Inr _, st') \<Rightarrow> (None, st'))"

definition reservation_step :: "'w services \<Rightarrow> order \<Rightarrow> string \<Rightarrow> 'w sys \<Rightarrow> exn option \<times> 'w sys" where
  "reservation_step sv order new_status st =
     (if new_status \<in> set [''cancelled'', ''failed'', ''returned''] \<and> status order \<noteq> new_status
      then caught_reservation_error
             (invoke (ReleaseReservation (order_ref order))
                     (release_reservation sv (order_ref order)) st)
      else if new_status \<in> set [''confirmed'', ''paid'', ''processing''] \<and> status order = ''pending''
      then caught_reservation_error
             (invoke (ConfirmReservation (order_ref order))
                     (confirm_reservation sv (order_ref order)) st)
      else (None, st))"

text \<open>Step 2, the transaction record. Every exception in it is logged and dropped.\<close>

definition income_trx :: "'w services \<Rightarrow> order \<Rightarrow> transaction_request" where
  "income_trx sv order =
     \<lparr>trx_type = ''sale_income'',
      trx_amount = total_amount order,
      trx_currency = (case currency order of Some cur \<Rightarrow> cur | None \<Rightarrow> default_currency sv),
      trx_description = ''Receita Pedido '' @ order_ref order,
      trx_status = ''completed'',
      associated_order_id = order_id order,
      associated_user_id = customer_id order\<rparr>"

definition transaction_step :: "'w services \<Rightarrow> order \<Rightarrow> string \<Rightarrow> 'w sys \<Rightarrow> 'w sys" where
  "transaction_step sv order new_status st =
     (if new_status \<in> set [''processing'', ''awaiting_shipment'', ''paid'']
         \<and> status order \<in> set [''pending'', ''confirmed'']
      then (case invoke (RecordTransaction (income_trx sv order))
                        (record_transaction sv (income_trx sv order)) st of
              (Inl e, st') \<Rightarrow> st'
            | (Inr created_trx_id, st') \<Rightarrow>
                snd (invoke
                  (OrderUpdate (order_id order)
                     [(''$addToSet'', VDict [(''transaction_ids'', VId created_trx_id)])])
                  (order_update sv (order_id order)
                     [(''$addToSet'', VDict [(''transaction_ids'', VId created_trx_id)])]) st'))
      else st)"

text \<open>
  Step 3, the tagged units. The dictionary comprehension keeps one quantity per
  product, the last; every exception is logged and dropped.
\<close>

definition prod_quantities :: "(object_id \<times> int) list \<Rightarrow> (object_id \<times> int) list" where
  "prod_quantities order_items = fold (\<lambda>(pid, quantity). AList.update pid quantity) order_items []"

definition sold_step :: "'w services \<Rightarrow> order \<Rightarrow> string \<Rightarrow> 'w sys \<Rightarrow> 'w sys" where
  "sold_step sv order new_status st =
     (if new_status = ''delivered''
      then snd (invoke (MarkItemsAsSold (order_id order) (prod_quantities (items order)))
                       (mark_items_as_sold sv (order_id order) (prod_quantities (items order))) st)
      else st)"

text \<open>The last step, the status write.\<close>

definition status_payload :: "'w services \<Rightarrow> order \<Rightarrow> string \<Rightarrow> string option \<Rightarrow> payload" where
  "status_payload sv order new_status notes =
     [(''status'', VStr new_status)]
     @ (if new_status = ''delivered'' \<and> actual_delivery_date order = None
        then [(''actual_delivery_date'', VTime (utcnow sv))] else [])
     @ (case notes of None \<Rightarrow> [] | Some text \<Rightarrow> [(''notes'', VStr text)])"

definition status_write ::
  "'w services \<Rightarrow> object_id \<Rightarrow> order \<Rightarrow> string \<Rightarrow> string option \<Rightarrow> 'w sys
     \<Rightarrow> (exn + order option) \<times> 'w sys" where
  "status_write sv oid order new_status notes st =
     (case invoke (OrderUpdate oid (status_payload sv order new_status notes))
                  (order_update sv oid (status_payload sv order new_status notes)) st of
        (Inl e, st') \<Rightarrow>
          (if e = ValueError \<or> e = RuntimeError then Inl (HTTPException 500) else Inl e, st')
      | (Inr None, st') \<Rightarrow> (Inl (HTTPException 500), st')
      | (Inr (Some updated_db), st') \<Rightarrow> (Inr (Some updated_db), st'))"

definition update_order_status ::
  "'w services \<Rightarrow> string \<Rightarrow> string \<Rightarrow> string option \<Rightarrow> 'w sys \<Rightarrow> (exn + order option) \<times> 'w sys" where
  "update_order_status sv order_id_str new_status notes st =
     (case order_to_objectid sv order_id_str of
        None \<Rightarrow> (Inl (HTTPException 400), st)
      | Some oid \<Rightarrow>
          (case order_get_by_id sv oid (world st) of
             Inl e \<Rightarrow> (Inl e, st)
           | Inr None \<Rightarrow> (Inr None, st)
           | Inr (Some order) \<Rightarrow>
               if new_status = status order then (Inr (Some order), st)
               else if new_status \<notin> set (allowed_targets (status order))
               then (Inl (HTTPException 400), st)
               else (case reservation_step sv order new_status st of
                       (Some e, st1) \<Rightarrow> (Inl e, st1)
                     | (None, st1) \<Rightarrow>
                         status_write sv oid order new_status notes
                           (sold_step sv order new_status
                              (transaction_step sv order new_status st1)))))"

text \<open>
  The transition table in the words of the specification, as pairs of a status and a
  status that may follow it.
\<close>

definition transition_table :: "(string \<times> string) list" where
  "transition_table =
     [(''pending'', ''confirmed''), (''pending'', ''processing''),
      (''pending'', ''cancelled''), (''pending'', ''failed''),
      (''confirmed'', ''processing''), (''confirmed'', ''awaiting_shipment''),
      (''confirmed'', ''cancelled''), (''confirmed'', ''failed''),
      (''processing'', ''awaiting_shipment''), (''processing'', ''shipped''),
      (''processing'', ''cancelled''), (''processing'', ''failed''),
      (''awaiting_shipment'', ''shipped''), (''awaiting_shipment'', ''cancelled''),
      (''awaiting_shipment'', ''failed''),
      (''shipped'', ''delivered''), (''shipped'', ''returned''), (''shipped'', ''failed''),
      (''delivered'', ''returned'')]"

text \<open>The calls issued between two states, and the transaction requests among calls.\<close>

definition calls_since :: "'w sys \<Rightarrow> 'w sys \<Rightarrow> call list" where
  "calls_since st st' = drop (length (calls st)) (calls st')"

fun transaction_requests :: "call list \<Rightarrow> transaction_request list" where
  "transaction_requests [] = []"
| "transaction_requests (RecordTransaction t # cs) = t # transaction_requests cs"
| "transaction_requests (c # cs) = transaction_requests cs"

section \<open>The reservation service\<close>

text \<open>
  \<open>StockReservationService\<close> is not among the sources; the order service only calls
  it. Its state is the product collection together with the manifest: the quantity
  each reservation holds of each product.
\<close>

record ledger =
  products :: collection
  manifest :: "((string \<times> object_id) \<times> int) list"

definition held :: "((string \<times> object_id) \<times> int) list \<Rightarrow> string \<Rightarrow> object_id \<Rightarrow> int" where
  "held m reservation_id p = (case map_of m (reservation_id, p) of None \<Rightarrow> 0 | Some q \<Rightarrow> q)"

definition reserved_products :: "((string \<times> object_id) \<times> int) list \<Rightarrow> string \<Rightarrow> object_id list" where
  "reserved_products m reservation_id =
     map (\<lambda>((r, p), q). p) (filter (\<lambda>((r, p), q). r = reservation_id) m)"

text \<open>
  Modelled from the spec: \<open>StockReservationService.reserve_stock\<close> is missing from the
  sources. Reserving an item is the reserve pattern of the ledger, the atomic update
  with \<open>is_reservation=True\<close> and the positive quantity; a successful attempt adds the
  quantity to what the reservation holds of the product.
\<close>

definition svc_reserve_stock ::
  "nat \<Rightarrow> string \<Rightarrow> object_id \<Rightarrow> int \<Rightarrow> ledger \<Rightarrow> (exn + bool) \<times> ledger" where
  "svc_reserve_stock now reservation_id p q w =
     (case update_stock_atomic handle_db_exception now (products w) p q True of
        (Inl e, c') \<Rightarrow> (Inl e, w)
      | (Inr ok, c') \<Rightarrow>
          if ok
          then (Inr True,
                w\<lparr>products := c',
                  manifest := AList.update (reservation_id, p)
                                (held (manifest w) reservation_id p + q) (manifest w)\<rparr>)
          else (Inr False, w))"

text \<open>
  Modelled from the spec: \<open>StockReservationService._release_or_confirm_single\<close> is
  missing from the sources. Releasing is the release pattern (\<open>is_reservation=True\<close>,
  the negated quantity) and confirming the confirm pattern (\<open>is_reservation=False\<close>,
  the negated quantity), for the quantity the reservation holds of the product; an item
  already released or never reserved is left alone and is no error; a ledger that
  refuses the adjustment is a \<open>ReservationError\<close>.
\<close>

definition svc_release_or_confirm_single ::
  "nat \<Rightarrow> string \<Rightarrow> string \<Rightarrow> bool \<Rightarrow> ledger \<Rightarrow> (exn + unit) \<times> ledger" where
  "svc_release_or_confirm_single now reservation_id p confirm w =
     (case map_of (manifest w) (reservation_id, p) of
        None \<Rightarrow> (Inr (), w)
      | Some q \<Rightarrow>
          (case update_stock_atomic handle_db_exception now (products w) p (- q) (\<not> confirm) of
             (Inl e, c') \<Rightarrow> (Inl e, w)
           | (Inr ok, c') \<Rightarrow>
               if ok
               then (Inr (), w\<lparr>products := c',
                               manifest := AList.delete (reservation_id, p) (manifest w)\<rparr>)
               else (Inl ReservationError, w)))"

fun each_item :: "nat \<Rightarrow> string \<Rightarrow> bool \<Rightarrow> object_id list \<Rightarrow> ledger \<Rightarrow> (exn + unit) \<times> ledger" where
  "each_item now reservation_id confirm [] w = (Inr (), w)"
| "each_item now reservation_id confirm (p # ps) w =
     (case svc_release_or_confirm_single now reservation_id p confirm w of
        (Inl e, w') \<Rightarrow> (Inl e, w')
      | (Inr _, w') \<Rightarrow> each_item now reservation_id confirm ps w')"

text \<open>
  Modelled from the spec: \<open>StockReservationService.release_reservation\<close> and
  \<open>confirm_reservation\<close> are missing from the sources. They apply the release, or the
  confirm, pattern to each item of the reservation in turn; the first error ends the
  call.
\<close>

definition svc_release_reservation :: "nat \<Rightarrow> string \<Rightarrow> ledger \<Rightarrow> (exn + unit) \<times> ledger" where
  "svc_release_reservation now reservation_id w =
     each_item now reservation_id False (reserved_products (manifest w) reservation_id) w"

definition svc_confirm_reservation :: "nat \<Rightarrow> string \<Rightarrow> ledger \<Rightarrow> (exn + unit) \<times> ledger" where
  "svc_confirm_reservation now reservation_id w =
     each_item now reservation_id True (reserved_products (manifest w) reservation_id) w"

subsection \<open>Conditions on a ledger\<close>

text \<open>
  Every product carries its two quantities and the reserved one is not negative; the
  reservation holds nothing yet; and, kept by every step of the reservation service:
  the database answers, products in the manifest exist, and what the reservation holds
  of a product is not negative and is part of the reserved quantity.
\<close>

definition quantities_ok :: "collection \<Rightarrow> bool" where
  "quantities_ok c =
     (\<forall>d \<in> ran (docs c).
        case (stock_quantity d, reserved_stock d) of
          (Some s, Some r) \<Rightarrow> 0 \<le> r
        | _ \<Rightarrow> False)"

definition fresh :: "((string \<times> object_id) \<times> int) list \<Rightarrow> string \<Rightarrow> bool" where
  "fresh m reservation_id = (reservation_id \<notin> set (map (\<lambda>((r, p), q). r) m))"

definition ledger_ok :: "ledger \<Rightarrow> string \<Rightarrow> bool" where
  "ledger_ok w reservation_id =
     (failing (products w) = None \<and>
      (\<forall>p. if docs (products w) p = None
           then map_of (manifest w) (reservation_id, p) = None
           else (case (stock_of (products w) p, reserved_of (products w) p) of
                   (Some s, Some r) \<Rightarrow>
                     0 \<le> held (manifest w) reservation_id p
                     \<and> held (manifest w) reservation_id p \<le> r
                 | _ \<Rightarrow> False)))"

text \<open>The reserved quantity of a product without the share of the reservation.\<close>

definition base :: "ledger \<Rightarrow> string \<Rightarrow> object_id \<Rightarrow> int option" where
  "base w reservation_id p =
     (case reserved_of (products w) p of
        None \<Rightarrow> None
      | Some r \<Rightarrow> Some (r - held (manifest w) reservation_id p))"

text \<open>
  A collaborator that does not write the ledger: whatever it returns, products and
  manifest are what they were.
\<close>

definition leaves_ledger :: "(ledger \<Rightarrow> 'r \<times> ledger) \<Rightarrow> bool" where
  "leaves_ledger f = (\<forall>w. products (snd (f w)) = products w \<and> manifest (snd (f w)) = manifest w)"

text \<open>A result of the reservation service that leaves the method: an error not caught.\<close>

fun propagates :: "exn + unit \<Rightarrow> bool" where
  "propagates (Inl e) = (e \<noteq> ReservationError)"
| "propagates (Inr u) = False"

section \<open>Example data: a shop with one stored order\<close>

definition demo_order :: "string \<Rightarrow> order" where
  "demo_order current_status =
     \<lparr>order_id = ''O1'', order_ref = ''ORD-000001'', customer_id = ''U1'',
      status = current_status, items = [(''P'', 4)], total_amount = ''40.00'',
      currency = None, actual_delivery_date = None\<rparr>"

text \<open>
  The stored order is found by its id, the status write returns it with the new status,
  saving a new order fails with the given exception, the bank answers with a transaction
  id, and the reservation service works on the ledger.
\<close>

definition shop_services :: "order \<Rightarrow> exn \<Rightarrow> ledger services" where
  "shop_services stored create_error =
     \<lparr>order_to_objectid = Some,
      order_get_by_id = (\<lambda>oid w. Inr (if oid = order_id stored then Some stored else None)),
      order_create = (\<lambda>data w. (Inl create_error, w)),
      order_update = (\<lambda>oid data w.
         (Inr (Some (case map_of data ''status'' of
                       Some (VStr s) \<Rightarrow> stored\<lparr>status := s\<rparr>
                     | _ \<Rightarrow> stored)), w)),
      reserve_stock = svc_reserve_stock 0,
      release_or_confirm_single = svc_release_or_confirm_single 0,
      release_reservation = svc_release_reservation 0,
      confirm_reservation = svc_confirm_reservation 0,
      record_transaction = (\<lambda>request w. (Inr ''T1'', w)),
      mark_items_as_sold = (\<lambda>oid quantities w. (Inr (), w)),
      utcnow = 0,
      default_currency = ''BRL''\<rparr>"

definition shop :: "collection \<Rightarrow> ((string \<times> object_id) \<times> int) list \<Rightarrow> ledger sys" where
  "shop c m = \<lparr>world = \<lparr>products = c, manifest = m\<rparr>, calls = []\<rparr>"

definition two_products :: collection where
  "two_products =
     \<lparr>docs = [''P1'' \<mapsto> product_doc 5 0, ''P2'' \<mapsto> product_doc 1 0], failing = None\<rparr>"

text \<open>
  The same shop when the database stops answering after the reserve attempts: every
  release raises.
\<close>

definition shop_services_release_fails :: "ledger services" where
  "shop_services_release_fails =
     (shop_services (demo_order ''pending'') RuntimeError)
       \<lparr>release_or_confirm_single := (\<lambda>reservation_id p confirm w. (Inl PyMongoError, w))\<rparr>"

section \<open>Facts about the atomic update\<close>

lemma int_field_Some: "int_field f d = Some n \<longleftrightarrow> d f = Some (VInt n)"
  by (auto simp: int_field_def split: option.splits val.splits)

lemma usa_eval:
  assumes "failing c = None" "docs c p = Some d"
    "d ''stock_quantity'' = Some (VInt s)" "d ''reserved_stock'' = Some (VInt r)"
  shows "update_stock_atomic h now c p q isres =
     (if isres then
        (if (0 < q \<and> s < q) \<or> (q < 0 \<and> r < - q) then (Inr False, c)
         else (Inr True, c\<lparr>docs := (docs c)(p \<mapsto>
                 d(''updated_at'' \<mapsto> VTime now, ''reserved_stock'' \<mapsto> VInt (r + q)))\<rparr>))
      else if q < 0 then
        (if s < - q \<or> r < - q then (Inr False, c)
         else (Inr True, c\<lparr>docs := (docs c)(p \<mapsto>
                 d(''updated_at'' \<mapsto> VTime now, ''stock_quantity'' \<mapsto> VInt (s + q),
                   ''reserved_stock'' \<mapsto> VInt (r + q)))\<rparr>))
      else (Inr True, c\<lparr>docs := (docs c)(p \<mapsto>
                 d(''updated_at'' \<mapsto> VTime now, ''stock_quantity'' \<mapsto> VInt (s + q)))\<rparr>))"
  using assms
  by (auto simp: update_stock_atomic_def find_one_and_update_def stock_query_def
      stock_update_op_def matches_def)

lemma usa_missing:
  assumes "failing c = None" "docs c p = None"
  shows "update_stock_atomic h now c p q isres = (Inr False, c)"
  using assms
  by (simp add: update_stock_atomic_def find_one_and_update_def stock_query_def)

lemma usa_failing:
  assumes "failing c = Some e"
  shows "update_stock_atomic h now c p q isres =
     (case h e of Inl e' \<Rightarrow> (Inl e', c) | Inr _ \<Rightarrow> (Inr False, c))"
  using assms
  by (simp add: update_stock_atomic_def find_one_and_update_def)

lemma usa_failing_snd: "failing c = Some e \<Longrightarrow> snd (update_stock_atomic h now c p q isres) = c"
  by (simp add: usa_failing split: sum.splits)

lemma doc_inv_iff:
  "doc_inv d \<longleftrightarrow> (\<exists>s r. d ''stock_quantity'' = Some (VInt s) \<and> d ''reserved_stock'' = Some (VInt r) \<and> r \<le> s)"
  by (auto simp: doc_inv_def stock_quantity_def reserved_stock_def int_field_def
      split: option.splits val.splits)

lemma ledger_inv_upd:
  "ledger_inv c \<Longrightarrow> doc_inv d' \<Longrightarrow> ledger_inv (c\<lparr>docs := (docs c)(p \<mapsto> d')\<rparr>)"
  by (auto simp: ledger_inv_def ran_def split: if_splits)

lemma ledger_inv_doc: "ledger_inv c \<Longrightarrow> docs c p = Some d \<Longrightarrow> doc_inv d"
  by (auto simp: ledger_inv_def ran_def)

lemma usa_preserves_inv:
  assumes inv: "ledger_inv c" and fit: "fits_available c (p, q, b)"
  shows "ledger_inv (snd (update_stock_atomic h now c p q b))"
proof (cases "failing c")
  case (Some e)
  then show ?thesis using inv by (simp add: usa_failing_snd)
next
  case None
  show ?thesis
  proof (cases "docs c p")
    case N: None
    then show ?thesis using inv None by (simp add: usa_missing)
  next
    case (Some d)
    with inv have "doc_inv d" by (rule ledger_inv_doc)
    then obtain s r where s: "d ''stock_quantity'' = Some (VInt s)"
      and r: "d ''reserved_stock'' = Some (VInt r)" and le: "r \<le> s"
      by (auto simp: doc_inv_iff)
    have av: "available_of c p = Some (s - r)"
      using Some s r
      by (simp add: available_of_def available_stock_def stock_quantity_def
          reserved_stock_def int_field_def)
    have fit': "b \<and> 0 < q \<longrightarrow> q \<le> s - r" using fit av by (auto split: if_splits)
    show ?thesis
      unfolding usa_eval [OF None Some s r]
      using inv le fit' s r
      by (auto intro!: ledger_inv_upd simp: doc_inv_iff)
  qed
qed

lemma run_calls_inv:
  "ledger_inv c \<Longrightarrow> reserves_fit h now c cs \<Longrightarrow> ledger_inv (run_calls h now c cs)"
proof (induction cs arbitrary: c)
  case Nil
  then show ?case by simp
next
  case (Cons a cs)
  obtain p q b where a: "a = (p, q, b)" by (cases a)
  from Cons.prems have "ledger_inv (snd (update_stock_atomic h now c p q b))"
    unfolding a by (intro usa_preserves_inv) simp_all
  with Cons show ?case unfolding a by simp
qed

lemma stock_of_Some:
  "stock_of c p = Some s \<longleftrightarrow> (\<exists>d. docs c p = Some d \<and> d ''stock_quantity'' = Some (VInt s))"
  by (auto simp: stock_of_def stock_quantity_def int_field_def split: option.splits val.splits)

lemma reserved_of_Some:
  "reserved_of c p = Some r \<longleftrightarrow> (\<exists>d. docs c p = Some d \<and> d ''reserved_stock'' = Some (VInt r))"
  by (auto simp: reserved_of_def reserved_stock_def int_field_def split: option.splits val.splits)

lemma usa_view:
  assumes "failing c = None" "stock_of c p = Some s" "reserved_of c p = Some r"
  shows "\<exists>c'. update_stock_atomic h now c p q b = (Inr (guard_ok s r q b), c')
           \<and> failing c' = None
           \<and> stock_of c' = (stock_of c)(p := Some (if guard_ok s r q b \<and> \<not> b then s + q else s))
           \<and> reserved_of c' = (reserved_of c)
                 (p := Some (if guard_ok s r q b \<and> (b \<or> q < 0) then r + q else r))
           \<and> (\<not> guard_ok s r q b \<longrightarrow> c' = c)"
proof -
  from assms obtain d where d: "docs c p = Some d"
    and s: "d ''stock_quantity'' = Some (VInt s)" and r: "d ''reserved_stock'' = Some (VInt r)"
    by (auto simp: stock_of_Some reserved_of_Some)
  have so: "stock_of c p = Some s" and ro: "reserved_of c p = Some r" by (fact assms)+
  show ?thesis
    unfolding usa_eval [OF assms(1) d s r]
    using assms(1) so ro d s r
    by (auto simp: guard_ok_def fun_eq_iff stock_of_def reserved_of_def stock_quantity_def
        reserved_stock_def int_field_def)
qed

lemma single_product_simps:
  "failing (single_product p s r) = None"
  "stock_of (single_product p s r) p = Some s"
  "reserved_of (single_product p s r) p = Some r"
  "available_of (single_product p s r) p = Some (s - r)"
  by (simp_all add: single_product_def product_doc_def stock_of_def reserved_of_def
      available_of_def available_stock_def stock_quantity_def reserved_stock_def int_field_def)

lemma ledger_inv_single: "ledger_inv (single_product p s r) \<longleftrightarrow> r \<le> s"
  by (simp add: ledger_inv_def single_product_def product_doc_def doc_inv_def
      stock_quantity_def reserved_stock_def int_field_def)

lemma reserve_attempts_eval:
  assumes "failing c = None" "stock_of c p = Some s" "reserved_of c p = Some r"
    "\<forall>q \<in> set qs. 0 < q"
  shows "fst (reserve_attempts h now c p qs) = map (\<lambda>q. Inr (q \<le> s)) qs
       \<and> stock_of (snd (reserve_attempts h now c p qs)) p = Some s
       \<and> reserved_of (snd (reserve_attempts h now c p qs)) p
           = Some (r + sum_list (filter (\<lambda>q. q \<le> s) qs))"
  using assms
proof (induction qs arbitrary: c r)
  case Nil
  then show ?case by simp
next
  case (Cons q qs)
  have q: "0 < q" using Cons.prems(4) by simp
  from usa_view [OF Cons.prems(1-3), of h now q True]
  obtain c' where step: "update_stock_atomic h now c p q True = (Inr (guard_ok s r q True), c')"
    and f: "failing c' = None"
    and so: "stock_of c' = (stock_of c)(p := Some s)"
    and ro: "reserved_of c' = (reserved_of c)(p := Some (if guard_ok s r q True then r + q else r))"
    by auto
  have s': "stock_of c' p = Some s" using so by simp
  have r': "reserved_of c' p = Some (if guard_ok s r q True then r + q else r)" using ro by simp
  have g: "guard_ok s r q True \<longleftrightarrow> q \<le> s" using q by (auto simp: guard_ok_def)
  have rest: "\<forall>q \<in> set qs. 0 < q" using Cons.prems(4) by simp
  note IH = Cons.IH [OF f s' r' rest]
  show ?case using IH step g
    by (auto split: prod.splits)
qed

lemma q_id_stock_query [simp]: "q_id (stock_query p q b) = p"
  by (simp add: stock_query_def)

lemma usa_success_confirm:
  assumes "0 < q" "update_stock_atomic h now c p (- q) False = (Inr True, c')"
  shows "\<exists>s r. stock_of c p = Some s \<and> reserved_of c p = Some r \<and> q \<le> s \<and> q \<le> r
           \<and> stock_of c' p = Some (s - q) \<and> reserved_of c' p = Some (r - q)
           \<and> available_of c' p = available_of c p"
proof -
  have f: "failing c = None"
  proof (cases "failing c")
    case (Some e)
    with assms(2) show ?thesis by (auto simp: usa_failing split: sum.splits)
  qed simp
  obtain d where d: "docs c p = Some d"
    using assms(2) f by (cases "docs c p") (auto simp: usa_missing)
  have m: "matches d (q_gte (stock_query p (- q) False))"
    using assms(2) f d
    by (auto simp: update_stock_atomic_def find_one_and_update_def split: if_splits)
  then obtain s r where s: "d ''stock_quantity'' = Some (VInt s)"
    and r: "d ''reserved_stock'' = Some (VInt r)"
    using assms(1)
    by (auto simp: matches_def stock_query_def split: option.splits val.splits)
  show ?thesis
    using assms d s r unfolding usa_eval [OF f d s r]
    by (auto simp: stock_of_def reserved_of_def available_of_def available_stock_def
        stock_quantity_def reserved_stock_def int_field_def split: if_splits)
qed

lemma usa_guard_unmet:
  assumes "failing c = None" "insufficient_stock c p q b"
  shows "update_stock_atomic h now c p q b = (Inr False, c)"
proof -
  from assms(2) obtain s r where s: "stock_of c p = Some s" and r: "reserved_of c p = Some r"
    and g: "\<not> guard_ok s r q b"
    by (auto simp: insufficient_stock_def split: option.splits)
  from usa_view [OF assms(1) s r, of h now q b] g show ?thesis by auto
qed

lemma usa_infrastructure_failure:
  assumes "failing c = Some e"
  shows "update_stock_atomic handle_db_exception now c p q b = (Inl e, c)"
  using assms by (simp add: usa_failing handle_db_exception_def)


lemma usa_fst:
  assumes "failing c = None" "stock_of c p = Some s" "reserved_of c p = Some r"
  shows "fst (update_stock_atomic h now c p q b) = Inr (guard_ok s r q b)"
  using usa_view [OF assms, of h now q b] by auto

lemma usa_single_product:
  "update_stock_atomic h now (single_product p s r) p q b
     = (Inr (guard_ok s r q b), snd (update_stock_atomic h now (single_product p s r) p q b))"
  by (simp add: prod_eq_iff usa_fst single_product_simps)

section \<open>The reserve guard and overselling\<close>

text \<open>
  Claim C1, as the code has it. A reserve attempt of a positive quantity \<open>q\<close> is
  guarded by \<open>stock_quantity \<ge> q\<close> alone: the reserved quantity is not consulted. So,
  of any series of reserve attempts on a product whose physical quantity is \<open>s\<close>,
  exactly those asking for at most \<open>s\<close> succeed, the physical quantity stays \<open>s\<close>
  and the reserved quantity grows by the sum of the successful requests.
\<close>

theorem reserve_guard_is_physical_stock:
  assumes "failing c = None" "stock_of c p = Some s" "reserved_of c p = Some r"
    "\<forall>q \<in> set qs. 0 < q"
  shows "fst (reserve_attempts h now c p qs) = map (\<lambda>q. Inr (q \<le> s)) qs
       \<and> stock_of (snd (reserve_attempts h now c p qs)) p = Some s
       \<and> reserved_of (snd (reserve_attempts h now c p qs)) p
           = Some (r + sum_list (filter (\<lambda>q. q \<le> s) qs))"
  using assms by (rule reserve_attempts_eval)

theorem reserve_guard_is_physical_stock_witness:
  "fst (reserve_attempts handle_db_exception 0 (single_product ''P'' 10 8) ''P'' [6, 11, 3])
     = [Inr True, Inr False, Inr True]
   \<and> stock_of (snd (reserve_attempts handle_db_exception 0 (single_product ''P'' 10 8) ''P''
        [6, 11, 3])) ''P'' = Some 10
   \<and> reserved_of (snd (reserve_attempts handle_db_exception 0 (single_product ''P'' 10 8) ''P''
        [6, 11, 3])) ''P'' = Some 17"
  using reserve_guard_is_physical_stock
    [of "single_product ''P'' 10 8" "''P''" 10 8 "[6, 11, 3]" handle_db_exception 0]
  by (simp add: single_product_simps)

text \<open>
  Scenario A of the specification: a product with 10 units on hand and none reserved,
  hence 10 available, and two reserve attempts of 6. Both succeed and 12 units end up
  reserved, more than were available.
\<close>

theorem scenario_A_both_reserves_succeed:
  "available_of (single_product ''P'' 10 0) ''P'' = Some 10
   \<and> fst (reserve_attempts handle_db_exception 0 (single_product ''P'' 10 0) ''P'' [6, 6])
       = [Inr True, Inr True]
   \<and> reserved_of (snd (reserve_attempts handle_db_exception 0 (single_product ''P'' 10 0) ''P''
        [6, 6])) ''P'' = Some 12"
  using reserve_attempts_eval
    [of "single_product ''P'' 10 0" "''P''" 10 0 "[6, 6]" handle_db_exception 0]
  by (simp add: single_product_simps)

section \<open>The ledger invariant\<close>

text \<open>
  Claim C3, as the code has it. From a ledger in which every product has
  \<open>reserved_stock \<le> stock_quantity\<close>, every series of calls of the atomic update
  (release, confirm, restock and reserve, on any products, successful or not) in which
  each reserve request asks for at most the stock available at the time it is made
  ends in a ledger with the same property.
\<close>

theorem ledger_invariant_preserved:
  assumes "ledger_inv c" "reserves_fit h now c cs"
  shows "ledger_inv (run_calls h now c cs)"
  using assms by (rule run_calls_inv)

theorem ledger_invariant_preserved_witness:
  "ledger_inv (single_product ''P'' 10 4)
   \<and> reserves_fit handle_db_exception 0 (single_product ''P'' 10 4)
        [(''P'', - 2, True), (''P'', - 1, False), (''P'', 5, False), (''P'', 3, True)]
   \<and> ledger_inv (run_calls handle_db_exception 0 (single_product ''P'' 10 4)
        [(''P'', - 2, True), (''P'', - 1, False), (''P'', 5, False), (''P'', 3, True)])"
proof -
  have i: "ledger_inv (single_product ''P'' 10 4)"
    by (simp add: ledger_inv_single)
  have f: "reserves_fit handle_db_exception 0 (single_product ''P'' 10 4)
        [(''P'', - 2, True), (''P'', - 1, False), (''P'', 5, False), (''P'', 3, True)]"
    by (simp add: update_stock_atomic_def find_one_and_update_def
      stock_query_def stock_update_op_def matches_def single_product_def product_doc_def
      available_of_def available_stock_def stock_quantity_def reserved_stock_def int_field_def)
  from i f ledger_invariant_preserved [OF i f] show ?thesis by simp
qed

text \<open>
  A reserve request is not held to the available stock: with 5 units on hand, all 5
  reserved, one more reserve of 1 succeeds and leaves 6 reserved.
\<close>

theorem reserve_breaks_ledger_invariant:
  "ledger_inv (single_product ''P'' 5 5)
   \<and> \<not> ledger_inv (run_calls handle_db_exception 0 (single_product ''P'' 5 5) [(''P'', 1, True)])"
  by (simp add: ledger_inv_single ledger_inv_def update_stock_atomic_def find_one_and_update_def
      stock_query_def stock_update_op_def matches_def single_product_def product_doc_def
      doc_inv_def stock_quantity_def reserved_stock_def int_field_def)

section \<open>Confirming a reservation\<close>

text \<open>
  Claim C6. A successful confirm of \<open>q > 0\<close> units of a product, that is a call with
  change \<open>- q\<close> and no reservation flag that returns \<open>True\<close>, found both quantities at
  least \<open>q\<close>, took \<open>q\<close> off each of them and left their difference, the available
  stock, as it was.
\<close>

theorem confirm_reduces_both_by_q:
  assumes "0 < q" "update_stock_atomic h now c p (- q) False = (Inr True, c')"
  shows "\<exists>s r. stock_of c p = Some s \<and> reserved_of c p = Some r \<and> q \<le> s \<and> q \<le> r
           \<and> stock_of c' p = Some (s - q) \<and> reserved_of c' p = Some (r - q)
           \<and> available_of c' p = available_of c p"
  using assms by (rule usa_success_confirm)

theorem confirm_reduces_both_by_q_witness:
  "update_stock_atomic handle_db_exception 0 (single_product ''P'' 10 4) ''P'' (- 3) False
     = (Inr True, snd (update_stock_atomic handle_db_exception 0 (single_product ''P'' 10 4) ''P'' (- 3) False))
   \<and> stock_of (snd (update_stock_atomic handle_db_exception 0 (single_product ''P'' 10 4) ''P'' (- 3) False))
        ''P'' = Some 7
   \<and> reserved_of (snd (update_stock_atomic handle_db_exception 0 (single_product ''P'' 10 4) ''P'' (- 3) False))
        ''P'' = Some 1
   \<and> available_of (snd (update_stock_atomic handle_db_exception 0 (single_product ''P'' 10 4) ''P'' (- 3) False))
        ''P'' = Some 6"
proof -
  have q: "(0::int) < 3" by simp
  have run: "update_stock_atomic handle_db_exception 0 (single_product ''P'' 10 4) ''P'' (- 3) False
     = (Inr True, snd (update_stock_atomic handle_db_exception 0 (single_product ''P'' 10 4) ''P'' (- 3) False))"
    using usa_single_product [of handle_db_exception 0 "''P''" 10 4 "- 3" False]
    by (simp add: guard_ok_def)
  from confirm_reduces_both_by_q [OF q run] run show ?thesis
    by (auto simp: single_product_simps)
qed

section \<open>Failure modes of the atomic update\<close>

text \<open>
  Claim C9. While the database answers, a call whose product exists with both
  quantities returns a boolean, the value of the guard; when the guard fails
  (insufficient stock) the call returns \<open>False\<close> and the collection is what it was.
  When the database fails, the exception goes to the exception handler of the
  repository and, as the handler raises, reaches the caller: it is not turned into
  \<open>False\<close>; the collection is what it was.
\<close>

theorem adjust_false_on_guard_error_on_failure:
  "(failing c = None \<longrightarrow> stock_of c p = Some s \<longrightarrow> reserved_of c p = Some r \<longrightarrow>
      fst (update_stock_atomic handle_db_exception now c p q b) = Inr (guard_ok s r q b))
   \<and> (failing c = None \<longrightarrow> insufficient_stock c p q b \<longrightarrow>
      update_stock_atomic handle_db_exception now c p q b = (Inr False, c))
   \<and> (failing c = Some e \<longrightarrow>
      update_stock_atomic handle_db_exception now c p q b = (Inl e, c))"
  by (simp add: usa_fst usa_guard_unmet usa_infrastructure_failure)

theorem adjust_false_on_guard_error_on_failure_witness:
  "fst (update_stock_atomic handle_db_exception 0 (single_product ''P'' 10 0) ''P'' 6 True) = Inr True
   \<and> update_stock_atomic handle_db_exception 0 (single_product ''P'' 1 0) ''P'' 2 True
       = (Inr False, single_product ''P'' 1 0)
   \<and> update_stock_atomic handle_db_exception 0 (unreachable_db (single_product ''P'' 1 0)) ''P'' 2 True
       = (Inl PyMongoError, unreachable_db (single_product ''P'' 1 0))"
  using adjust_false_on_guard_error_on_failure
      [of "single_product ''P'' 10 0" "''P''" 10 0 0 6 True PyMongoError]
    adjust_false_on_guard_error_on_failure
      [of "single_product ''P'' 1 0" "''P''" 1 0 0 2 True PyMongoError]
    adjust_false_on_guard_error_on_failure
      [of "unreachable_db (single_product ''P'' 1 0)" "''P''" 1 0 0 2 True PyMongoError]
  by (simp add: single_product_simps insufficient_stock_def guard_ok_def unreachable_db_def)



lemma apply_set_other: "map_of kvs f = None \<Longrightarrow> apply_set kvs d f = d f"
  by (induction kvs d rule: apply_set.induct) (auto split: if_splits)

lemma apply_push_other:
  "apply_push entry d = Some d' \<Longrightarrow> f \<noteq> ''price_history'' \<Longrightarrow> d' f = d f"
  by (auto simp: apply_push_def split: option.splits val.splits)

lemma copy_unprotected_protected:
  "k \<in> set protected_fields \<Longrightarrow> map_of up k = None
     \<Longrightarrow> map_of (copy_unprotected other up) k = None"
proof (induction other up rule: copy_unprotected.induct)
  case (1 update_payload)
  then show ?case by simp
next
  case (2 key "value" rest update_payload)
  show ?case
  proof (cases "key \<in> set protected_fields")
    case True
    with 2 show ?thesis by simp
  next
    case False
    with "2.prems" have "k \<noteq> key" by auto
    with False 2 show ?thesis by (simp add: update_conv)
  qed
qed

lemma price_changes_keys:
  "price_changes env cur np u r = Inr (pp, push) \<Longrightarrow> map_of pp ''reserved_stock'' = None"
  by (auto simp: price_changes_def split: if_splits sum.splits)

lemma update_one_field:
  assumes "update_one c obj_id sp push = Inr (n, c')" "map_of sp f = None" "f \<noteq> ''price_history''"
  shows "field_of c' p f = field_of c p f"
  using assms
  by (auto simp: update_one_def field_of_def apply_set_other dest: apply_push_other
      split: option.splits if_splits)

section \<open>What the general product update writes\<close>

text \<open>
  Claim C8, as the code has it. Of the two ledger fields the general product update
  protects \<open>reserved_stock\<close>: whatever the payload, the product and the collaborators,
  the stored \<open>reserved_stock\<close> of every product is after the update what it was
  before.
\<close>

theorem update_keeps_reserved_stock:
  "field_of (snd (update env h now c ident data_in)) p ''reserved_stock''
     = field_of c p ''reserved_stock''"
proof -
  have prot: "''reserved_stock'' \<in> set protected_fields" by (simp add: protected_fields_def)
  have key: "map_of (AList.update ''updated_at'' v (copy_unprotected other pp)) ''reserved_stock'' = None"
    if "map_of pp ''reserved_stock'' = None" for v other pp
    using copy_unprotected_protected [OF prot that, of other] by (simp add: update_conv)
  show ?thesis
    unfolding update_def
    by (auto split: option.splits sum.splits prod.splits
        dest!: price_changes_keys intro!: update_one_field [OF _ key] simp: Let_def)
qed

theorem update_keeps_reserved_stock_witness:
  "field_of (snd (update plain_env handle_db_exception 7 (single_product ''P'' 10 4) ''P''
      [(''name'', VStr ''lamp''), (''reserved_stock'', VInt 0)])) ''P'' ''reserved_stock''
     = Some (VInt 4)"
  using update_keeps_reserved_stock [of plain_env handle_db_exception 7 "single_product ''P'' 10 4"
      "''P''" "[(''name'', VStr ''lamp''), (''reserved_stock'', VInt 0)]" "''P''"]
  by (simp add: field_of_def single_product_def product_doc_def)

text \<open>
  \<open>stock_quantity\<close> is not among the protected fields: a payload that carries it
  overwrites the stored quantity, here 10 units on hand become 3.
\<close>

theorem update_overwrites_stock_quantity:
  "field_of (single_product ''P'' 10 4) ''P'' ''stock_quantity'' = Some (VInt 10)
   \<and> field_of (snd (update plain_env handle_db_exception 7 (single_product ''P'' 10 4) ''P''
        [(''stock_quantity'', VInt 3)])) ''P'' ''stock_quantity'' = Some (VInt 3)"
  by (simp add: update_def plain_env_def get_by_id_def single_product_def pop_def price_changes_def
      prepare_data_for_db_def protected_fields_def update_one_def apply_push_def field_of_def
      product_doc_def)


section \<open>Facts about the calls of the order service\<close>

lemma transition_table_iff:
  "(a, b) \<in> set transition_table \<longleftrightarrow> b \<in> set (allowed_targets a)"
  by (auto simp: transition_table_def allowed_targets_def valid_transitions_def)

lemma invoke_calls [simp]: "calls (snd (invoke c f st)) = calls st @ [c]"
  by (simp add: invoke_def split: prod.splits)

lemma invoke_world [simp]: "world (snd (invoke c f st)) = snd (f (world st))"
  by (simp add: invoke_def split: prod.splits)

lemma invoke_fst [simp]: "fst (invoke c f st) = fst (f (world st))"
  by (simp add: invoke_def split: prod.splits)

lemma caught_calls:
  "calls (snd (caught_reservation_error (invoke c f st))) = calls st @ [c]"
  by (cases "invoke c f st" rule: prod.exhaust)
     (auto simp: caught_reservation_error_def invoke_def split: prod.splits sum.splits)

lemma caught_fst:
  "fst (caught_reservation_error (invoke c f st)) = None \<longleftrightarrow> \<not> propagates (fst (f (world st)))"
  by (auto simp: caught_reservation_error_def invoke_def split: prod.splits sum.splits)

lemma transaction_step_calls:
  "calls (transaction_step sv order new_status st) =
     calls st @
     (if new_status \<in> set [''processing'', ''awaiting_shipment'', ''paid'']
         \<and> status order \<in> set [''pending'', ''confirmed'']
      then RecordTransaction (income_trx sv order) #
           (case fst (record_transaction sv (income_trx sv order) (world st)) of
              Inl e \<Rightarrow> []
            | Inr created_trx_id \<Rightarrow>
                [OrderUpdate (order_id order)
                   [(''$addToSet'', VDict [(''transaction_ids'', VId created_trx_id)])]])
      else [])"
  by (auto simp: transaction_step_def invoke_def split: prod.splits sum.splits)

lemma sold_step_calls:
  "calls (sold_step sv order new_status st) =
     calls st @
     (if new_status = ''delivered''
      then [MarkItemsAsSold (order_id order) (prod_quantities (items order))] else [])"
  by (auto simp: sold_step_def)

lemma status_write_calls:
  "calls (snd (status_write sv oid order new_status notes st)) =
     calls st @ [OrderUpdate oid (status_payload sv order new_status notes)]"
  by (auto simp: status_write_def invoke_def split: prod.splits sum.splits option.splits)

lemma transaction_requests_append:
  "transaction_requests (xs @ ys) = transaction_requests xs @ transaction_requests ys"
  by (induction xs rule: transaction_requests.induct) auto

lemma pending_step:
  assumes "status order = ''pending''" "new_status = ''confirmed'' \<or> new_status = ''processing''"
  shows "reservation_step sv order new_status st =
     caught_reservation_error
       (invoke (ConfirmReservation (order_ref order)) (confirm_reservation sv (order_ref order)) st)"
  using assms by (auto simp: reservation_step_def)

lemma pending_confirm:
  assumes "order_to_objectid sv order_id_str = Some oid"
    "order_get_by_id sv oid (world st) = Inr (Some order)"
    "status order = ''pending''"
    "new_status = ''confirmed'' \<or> new_status = ''processing''"
  shows "take 1 (calls_since st (snd (update_order_status sv order_id_str new_status notes st)))
           = [ConfirmReservation (order_ref order)]
       \<and> transaction_requests
             (calls_since st (snd (update_order_status sv order_id_str new_status notes st)))
           = (if new_status = ''processing''
                 \<and> \<not> propagates (fst (confirm_reservation sv (order_ref order) (world st)))
              then [income_trx sv order] else [])"
proof -
  let ?r = "caught_reservation_error
       (invoke (ConfirmReservation (order_ref order)) (confirm_reservation sv (order_ref order)) st)"
  have ok: "new_status \<in> set (allowed_targets ''pending'')" "new_status \<noteq> ''pending''"
    using assms(4) by (auto simp: allowed_targets_def valid_transitions_def)
  have c1: "calls (snd ?r) = calls st @ [ConfirmReservation (order_ref order)]"
    by (rule caught_calls)
  obtain x st1 where r: "?r = (x, st1)" by (cases ?r)
  have c1': "calls st1 = calls st @ [ConfirmReservation (order_ref order)]"
    using c1 r by simp
  have step: "reservation_step sv order new_status st = (x, st1)"
    using r by (simp add: pending_step [OF assms(3,4)])
  show ?thesis
  proof (cases x)
    case None
    then have np: "\<not> propagates (fst (confirm_reservation sv (order_ref order) (world st)))"
      using caught_fst [of "ConfirmReservation (order_ref order)"
          "confirm_reservation sv (order_ref order)" st] r by simp
    have run: "update_order_status sv order_id_str new_status notes st =
        status_write sv oid order new_status notes
          (sold_step sv order new_status (transaction_step sv order new_status st1))"
      using assms(1,2,3) ok None step
      by (simp add: update_order_status_def)
    show ?thesis
      unfolding run using assms(3,4) np
      by (auto simp: calls_since_def status_write_calls sold_step_calls transaction_step_calls c1'
          transaction_requests_append split: sum.splits)
  next
    case (Some e)
    then have p: "propagates (fst (confirm_reservation sv (order_ref order) (world st)))"
      using caught_fst [of "ConfirmReservation (order_ref order)"
          "confirm_reservation sv (order_ref order)" st] r by auto
    have run: "update_order_status sv order_id_str new_status notes st = (Inl e, st1)"
      using assms(1,2,3) ok Some step
      by (simp add: update_order_status_def)
    show ?thesis
      unfolding run using p by (simp add: calls_since_def c1')
  qed
qed

lemma shop_services_simps:
  "order_to_objectid (shop_services stored ce) = Some"
  "order_get_by_id (shop_services stored ce) oid w = Inr (if oid = order_id stored then Some stored else None)"
  "order_create (shop_services stored ce) data w = (Inl ce, w)"
  "reserve_stock (shop_services stored ce) = svc_reserve_stock 0"
  "release_or_confirm_single (shop_services stored ce) = svc_release_or_confirm_single 0"
  "release_reservation (shop_services stored ce) = svc_release_reservation 0"
  "confirm_reservation (shop_services stored ce) = svc_confirm_reservation 0"
  "record_transaction (shop_services stored ce) request w = (Inr ''T1'', w)"
  "mark_items_as_sold (shop_services stored ce) oid quantities w = (Inr (), w)"
  by (simp_all add: shop_services_def)

lemma shop_order_update:
  "order_update (shop_services stored ce) oid data w =
     (Inr (Some (case map_of data ''status'' of
                   Some (VStr s) \<Rightarrow> stored\<lparr>status := s\<rparr>
                 | _ \<Rightarrow> stored)), w)"
  by (simp add: shop_services_def)

lemma confirm_in_shop:
  "svc_confirm_reservation 0 ''ORD-000001''
       \<lparr>products = single_product ''P'' 10 4, manifest = [((''ORD-000001'', ''P''), 4)]\<rparr>
     = (Inr (),
        \<lparr>products = snd (update_stock_atomic handle_db_exception 0 (single_product ''P'' 10 4) ''P'' (- 4) False),
         manifest = []\<rparr>)"
  by (simp add: svc_confirm_reservation_def reserved_products_def
      svc_release_or_confirm_single_def split_beta usa_fst single_product_simps guard_ok_def)

section \<open>Order status transitions\<close>

text \<open>
  Claim C10. For an order that is found, asking for the status it already has returns
  the order as it is and leaves everything as it was: no call is issued to the
  reservation service, the bank, the stock service or the order repository. The
  status may be any, a terminal one included.
\<close>

theorem same_status_is_noop:
  assumes "order_to_objectid sv order_id_str = Some oid"
    "order_get_by_id sv oid (world st) = Inr (Some order)"
    "new_status = status order"
  shows "update_order_status sv order_id_str new_status notes st = (Inr (Some order), st)"
  using assms by (simp add: update_order_status_def)

theorem same_status_is_noop_witness:
  "update_order_status (shop_services (demo_order ''cancelled'') RuntimeError) ''O1'' ''cancelled''
       (Some ''again'') (shop (single_product ''P'' 10 0) [])
     = (Inr (Some (demo_order ''cancelled'')), shop (single_product ''P'' 10 0) [])"
  using same_status_is_noop [of "shop_services (demo_order ''cancelled'') RuntimeError" "''O1''" "''O1''"
      "shop (single_product ''P'' 10 0) []" "demo_order ''cancelled''" "''cancelled''" "Some ''again''"]
  by (simp add: shop_services_simps demo_order_def)

text \<open>
  Claim C5. For an order that is found, a requested status that differs from the
  current one and is not listed for it in the transition table is refused with
  \<open>HTTPException(400)\<close>, and the state is what it was: no call was issued to the
  reservation service, the bank, the stock service or the order repository.
\<close>

theorem unlisted_transition_rejected:
  assumes "order_to_objectid sv order_id_str = Some oid"
    "order_get_by_id sv oid (world st) = Inr (Some order)"
    "(status order, new_status) \<notin> set transition_table"
    "status order \<noteq> new_status"
  shows "update_order_status sv order_id_str new_status notes st = (Inl (HTTPException 400), st)"
  using assms by (auto simp: update_order_status_def transition_table_iff)

theorem unlisted_transition_rejected_witness:
  "update_order_status (shop_services (demo_order ''cancelled'') RuntimeError) ''O1'' ''confirmed''
       None (shop (single_product ''P'' 10 0) [])
     = (Inl (HTTPException 400), shop (single_product ''P'' 10 0) [])"
  using unlisted_transition_rejected [of "shop_services (demo_order ''cancelled'') RuntimeError"
      "''O1''" "''O1''" "shop (single_product ''P'' 10 0) []" "demo_order ''cancelled''"
      "''confirmed''" None]
  by (simp add: shop_services_simps demo_order_def transition_table_def)

text \<open>
  Claim C7, as the code has it. For an order found in status \<open>pending\<close>, a transition
  to \<open>confirmed\<close> or to \<open>processing\<close> first calls \<open>confirm_reservation\<close> with the
  order reference. A transaction record is then requested from the bank, exactly once,
  when the new status is \<open>processing\<close> and the confirmation ended without an error
  other than \<open>ReservationError\<close>; on the transition to \<open>confirmed\<close> no transaction
  record is requested.
\<close>

theorem pending_confirms_then_records_on_processing:
  assumes "order_to_objectid sv order_id_str = Some oid"
    "order_get_by_id sv oid (world st) = Inr (Some order)"
    "status order = ''pending''"
    "new_status = ''confirmed'' \<or> new_status = ''processing''"
  shows "take 1 (calls_since st (snd (update_order_status sv order_id_str new_status notes st)))
           = [ConfirmReservation (order_ref order)]
       \<and> transaction_requests
             (calls_since st (snd (update_order_status sv order_id_str new_status notes st)))
           = (if new_status = ''processing''
                 \<and> \<not> propagates (fst (confirm_reservation sv (order_ref order) (world st)))
              then [income_trx sv order] else [])"
  using assms by (rule pending_confirm)

theorem pending_confirms_then_records_on_processing_witness:
  "take 1 (calls_since (shop (single_product ''P'' 10 4) [((''ORD-000001'', ''P''), 4)])
      (snd (update_order_status (shop_services (demo_order ''pending'') RuntimeError) ''O1''
         ''processing'' None (shop (single_product ''P'' 10 4) [((''ORD-000001'', ''P''), 4)]))))
     = [ConfirmReservation ''ORD-000001'']
   \<and> transaction_requests
       (calls_since (shop (single_product ''P'' 10 4) [((''ORD-000001'', ''P''), 4)])
         (snd (update_order_status (shop_services (demo_order ''pending'') RuntimeError) ''O1''
            ''processing'' None (shop (single_product ''P'' 10 4) [((''ORD-000001'', ''P''), 4)]))))
     = [income_trx (shop_services (demo_order ''pending'') RuntimeError) (demo_order ''pending'')]"
  using pending_confirms_then_records_on_processing
      [of "shop_services (demo_order ''pending'') RuntimeError" "''O1''" "''O1''"
          "shop (single_product ''P'' 10 4) [((''ORD-000001'', ''P''), 4)]"
          "demo_order ''pending''" "''processing''" None]
  by (simp add: shop_services_simps demo_order_def shop_def confirm_in_shop)

text \<open>
  Scenario D of the specification: the order goes from \<open>pending\<close> to \<open>confirmed\<close>.
  The transition is accepted and the confirmation takes the 4 ordered units off both
  quantities; the calls issued are the confirmation and the status write, and no
  transaction record is requested.
\<close>

theorem pending_to_confirmed_records_no_transaction:
  "fst (update_order_status (shop_services (demo_order ''pending'') RuntimeError) ''O1''
         ''confirmed'' None (shop (single_product ''P'' 10 4) [((''ORD-000001'', ''P''), 4)]))
     = Inr (Some (demo_order ''confirmed''))
   \<and> calls (snd (update_order_status (shop_services (demo_order ''pending'') RuntimeError) ''O1''
         ''confirmed'' None (shop (single_product ''P'' 10 4) [((''ORD-000001'', ''P''), 4)])))
     = [ConfirmReservation ''ORD-000001'', OrderUpdate ''O1'' [(''status'', VStr ''confirmed'')]]
   \<and> transaction_requests
        (calls (snd (update_order_status (shop_services (demo_order ''pending'') RuntimeError) ''O1''
         ''confirmed'' None (shop (single_product ''P'' 10 4) [((''ORD-000001'', ''P''), 4)]))))
     = []
   \<and> stock_of (products (world (snd (update_order_status
         (shop_services (demo_order ''pending'') RuntimeError) ''O1''
         ''confirmed'' None (shop (single_product ''P'' 10 4) [((''ORD-000001'', ''P''), 4)]))))) ''P''
     = Some 6
   \<and> reserved_of (products (world (snd (update_order_status
         (shop_services (demo_order ''pending'') RuntimeError) ''O1''
         ''confirmed'' None (shop (single_product ''P'' 10 4) [((''ORD-000001'', ''P''), 4)]))))) ''P''
     = Some 0"
proof -
  have q: "(0::int) < 4" by simp
  have run: "update_stock_atomic handle_db_exception 0 (single_product ''P'' 10 4) ''P'' (- 4) False
     = (Inr True, snd (update_stock_atomic handle_db_exception 0 (single_product ''P'' 10 4) ''P'' (- 4) False))"
    using usa_single_product [of handle_db_exception 0 "''P''" 10 4 "- 4" False]
    by (simp add: guard_ok_def)
  from usa_success_confirm [OF q run]
  have after: "stock_of (snd (update_stock_atomic handle_db_exception 0 (single_product ''P'' 10 4) ''P'' (- 4) False)) ''P'' = Some 6"
    "reserved_of (snd (update_stock_atomic handle_db_exception 0 (single_product ''P'' 10 4) ''P'' (- 4) False)) ''P'' = Some 0"
    by (auto simp: single_product_simps)
  show ?thesis
    by (simp add: update_order_status_def shop_services_simps shop_order_update demo_order_def shop_def
        allowed_targets_def valid_transitions_def reservation_step_def caught_reservation_error_def
        invoke_def confirm_in_shop transaction_step_def sold_step_def status_write_def
        status_payload_def after)
qed


section \<open>Facts about the reservation service\<close>

lemma usa_dom: "docs (snd (update_stock_atomic h now c p q b)) p' = None \<longleftrightarrow> docs c p' = None"
  by (auto simp: update_stock_atomic_def find_one_and_update_def
      split: option.splits sum.splits if_splits)

lemma ledger_okD:
  assumes "ledger_ok w rid" "docs (products w) p \<noteq> None"
  obtains s r where "stock_of (products w) p = Some s" "reserved_of (products w) p = Some r"
    "0 \<le> held (manifest w) rid p" "held (manifest w) rid p \<le> r"
proof -
  from assms have "case (stock_of (products w) p, reserved_of (products w) p) of
                   (Some s, Some r) \<Rightarrow>
                     0 \<le> held (manifest w) rid p \<and> held (manifest w) rid p \<le> r
                 | _ \<Rightarrow> False"
    unfolding ledger_ok_def by (metis (no_types, lifting))
  then show ?thesis using that by (auto split: option.splits)
qed

lemma ledger_ok_missing:
  "ledger_ok w rid \<Longrightarrow> docs (products w) p = None \<Longrightarrow> map_of (manifest w) (rid, p) = None"
  unfolding ledger_ok_def by metis

lemma ledger_ok_failing: "ledger_ok w rid \<Longrightarrow> failing (products w) = None"
  by (simp add: ledger_ok_def)

lemma held_update:
  "held (AList.update (rid, p) v m) rid p' = (if p' = p then v else held m rid p')"
  by (simp add: held_def update_conv)

lemma held_delete:
  "held (AList.delete (rid, p) m) rid p' = (if p' = p then 0 else held m rid p')"
  by (simp add: held_def delete_conv)

lemma svc_reserve_step:
  assumes ok: "ledger_ok w rid" and q: "0 \<le> q"
  obtains b w' where "svc_reserve_stock now rid p q w = (Inr b, w')" "ledger_ok w' rid"
    "\<And>p'. base w' rid p' = base w rid p'"
    "\<And>p'. map_of (manifest w') (rid, p') =
        (if p' = p \<and> b then Some (held (manifest w) rid p + q) else map_of (manifest w) (rid, p'))"
proof (cases "docs (products w) p")
  case None
  have "svc_reserve_stock now rid p q w = (Inr False, w)"
    using None ledger_ok_failing [OF ok] by (simp add: svc_reserve_stock_def usa_missing)
  then show ?thesis using ok by (intro that [of False w]) simp_all
next
  case (Some d)
  note d = Some
  then have ex: "docs (products w) p \<noteq> None" by simp
  from ledger_okD [OF ok ex] obtain s r where
    s: "stock_of (products w) p = Some s" and r: "reserved_of (products w) p = Some r"
    and h0: "0 \<le> held (manifest w) rid p" and hr: "held (manifest w) rid p \<le> r"
    by blast
  from usa_view [OF ledger_ok_failing [OF ok] s r, of handle_db_exception now q True]
  obtain c' where step: "update_stock_atomic handle_db_exception now (products w) p q True
        = (Inr (guard_ok s r q True), c')"
    and f: "failing c' = None"
    and so: "stock_of c' = (stock_of (products w))(p := Some s)"
    and ro: "reserved_of c' = (reserved_of (products w))
               (p := Some (if guard_ok s r q True then r + q else r))"
    and same: "\<not> guard_ok s r q True \<longrightarrow> c' = products w"
    by auto
  have dom: "docs c' p' = None \<longleftrightarrow> docs (products w) p' = None" for p'
    using usa_dom [of handle_db_exception now "products w" p q True p'] step by simp
  show ?thesis
  proof (cases "guard_ok s r q True")
    case False
    then have "svc_reserve_stock now rid p q w = (Inr False, w)"
      using step by (simp add: svc_reserve_stock_def)
    then show ?thesis using ok by (intro that [of False w]) simp_all
  next
    case True
    let ?w' = "w\<lparr>products := c',
                 manifest := AList.update (rid, p) (held (manifest w) rid p + q) (manifest w)\<rparr>"
    have res: "svc_reserve_stock now rid p q w = (Inr True, ?w')"
      using step True by (simp add: svc_reserve_stock_def)
    have ok': "ledger_ok ?w' rid"
      unfolding ledger_ok_def
    proof (intro conjI allI)
      show "failing (products ?w') = None" using f by simp
    next
      fix p'
      show "if docs (products ?w') p' = None
           then map_of (manifest ?w') (rid, p') = None
           else (case (stock_of (products ?w') p', reserved_of (products ?w') p') of
                   (Some s, Some r) \<Rightarrow>
                     0 \<le> held (manifest ?w') rid p' \<and> held (manifest ?w') rid p' \<le> r
                 | _ \<Rightarrow> False)"
      proof (cases "p' = p")
        case True
        then show ?thesis
          using d dom [of p] so ro \<open>guard_ok s r q True\<close> h0 hr q
          by (auto simp: held_update)
      next
        case False
        show ?thesis
        proof (cases "docs (products w) p' = None")
          case True
          then show ?thesis
            using False dom [of p'] ledger_ok_missing [OF ok True]
            by (auto simp: update_conv)
        next
          case F: False
          from ledger_okD [OF ok F] obtain s' r' where
            "stock_of (products w) p' = Some s'" "reserved_of (products w) p' = Some r'"
            "0 \<le> held (manifest w) rid p'" "held (manifest w) rid p' \<le> r'"
            by blast
          then show ?thesis
            using False F dom [of p'] so ro by (auto simp: held_update)
        qed
      qed
    qed
    have b: "base ?w' rid p' = base w rid p'" for p'
      using ro r True by (auto simp: base_def held_update split: option.splits)
    have m: "map_of (manifest ?w') (rid, p') =
        (if p' = p \<and> True then Some (held (manifest w) rid p + q) else map_of (manifest w) (rid, p'))"
      for p'
      by (simp add: update_conv)
    show ?thesis using that [OF res ok' b m] .
  qed
qed

lemma svc_release_step:
  assumes ok: "ledger_ok w rid"
  obtains w' where "svc_release_or_confirm_single now rid p False w = (Inr (), w')"
    "ledger_ok w' rid"
    "\<And>p'. base w' rid p' = base w rid p'"
    "\<And>p'. map_of (manifest w') (rid, p') =
        (if p' = p then None else map_of (manifest w) (rid, p'))"
proof (cases "map_of (manifest w) (rid, p)")
  case None
  then have "svc_release_or_confirm_single now rid p False w = (Inr (), w)"
    by (simp add: svc_release_or_confirm_single_def)
  then show ?thesis using ok None by (intro that [of w]) simp_all
next
  case (Some q)
  note q = Some
  have ex: "docs (products w) p \<noteq> None"
    using ledger_ok_missing [OF ok, of p] q by auto
  from ledger_okD [OF ok ex] obtain s r where
    s: "stock_of (products w) p = Some s" and r: "reserved_of (products w) p = Some r"
    and h0: "0 \<le> held (manifest w) rid p" and hr: "held (manifest w) rid p \<le> r"
    by blast
  have hq: "held (manifest w) rid p = q" using q by (simp add: held_def)
  have g: "guard_ok s r (- q) True" using h0 hr hq by (simp add: guard_ok_def)
  from usa_view [OF ledger_ok_failing [OF ok] s r, of handle_db_exception now "- q" True] g
  obtain c' where step: "update_stock_atomic handle_db_exception now (products w) p (- q) True
        = (Inr True, c')"
    and f: "failing c' = None"
    and so: "stock_of c' = (stock_of (products w))(p := Some s)"
    and ro: "reserved_of c' = (reserved_of (products w))(p := Some (r - q))"
    by auto
  have dom: "docs c' p' = None \<longleftrightarrow> docs (products w) p' = None" for p'
    using usa_dom [of handle_db_exception now "products w" p "- q" True p'] step by simp
  let ?w' = "w\<lparr>products := c', manifest := AList.delete (rid, p) (manifest w)\<rparr>"
  have res: "svc_release_or_confirm_single now rid p False w = (Inr (), ?w')"
    using step q by (simp add: svc_release_or_confirm_single_def)
  have ok': "ledger_ok ?w' rid"
    unfolding ledger_ok_def
  proof (intro conjI allI)
    show "failing (products ?w') = None" using f by simp
  next
    fix p'
    show "if docs (products ?w') p' = None
         then map_of (manifest ?w') (rid, p') = None
         else (case (stock_of (products ?w') p', reserved_of (products ?w') p') of
                 (Some s, Some r) \<Rightarrow>
                   0 \<le> held (manifest ?w') rid p' \<and> held (manifest ?w') rid p' \<le> r
               | _ \<Rightarrow> False)"
    proof (cases "p' = p")
      case True
      then show ?thesis
        using ex dom [of p] so ro h0 hr hq
        by (auto simp: held_delete)
    next
      case False
      show ?thesis
      proof (cases "docs (products w) p' = None")
        case True
        then show ?thesis
          using False dom [of p'] ledger_ok_missing [OF ok True]
          by (auto simp: delete_conv)
      next
        case F: False
        from ledger_okD [OF ok F] obtain s' r' where
          "stock_of (products w) p' = Some s'" "reserved_of (products w) p' = Some r'"
          "0 \<le> held (manifest w) rid p'" "held (manifest w) rid p' \<le> r'"
          by blast
        then show ?thesis
          using False F dom [of p'] so ro by (auto simp: held_delete)
      qed
    qed
  qed
  have b: "base ?w' rid p' = base w rid p'" for p'
    using ro r hq by (auto simp: base_def held_delete split: option.splits)
  have m: "map_of (manifest ?w') (rid, p') =
      (if p' = p then None else map_of (manifest w) (rid, p'))" for p'
    by (simp add: delete_conv)
  show ?thesis using that [OF res ok' b m] .
qed

lemma each_item_release:
  assumes "ledger_ok w rid"
  shows "\<exists>w'. each_item now rid False ps w = (Inr (), w') \<and> ledger_ok w' rid
           \<and> (\<forall>p. base w' rid p = base w rid p)
           \<and> (\<forall>p. map_of (manifest w') (rid, p) =
                  (if p \<in> set ps then None else map_of (manifest w) (rid, p)))"
  using assms
proof (induction ps arbitrary: w)
  case Nil
  then show ?case by simp
next
  case (Cons a ps)
  from svc_release_step [OF Cons.prems, of now a] obtain w1 where
    step: "svc_release_or_confirm_single now rid a False w = (Inr (), w1)"
    and ok1: "ledger_ok w1 rid"
    and b1: "\<And>p'. base w1 rid p' = base w rid p'"
    and m1: "\<And>p'. map_of (manifest w1) (rid, p') =
        (if p' = a then None else map_of (manifest w) (rid, p'))"
    by blast
  from Cons.IH [OF ok1] obtain w' where
    rest: "each_item now rid False ps w1 = (Inr (), w')" and ok': "ledger_ok w' rid"
    and b': "\<forall>p. base w' rid p = base w1 rid p"
    and m': "\<forall>p. map_of (manifest w') (rid, p) =
                  (if p \<in> set ps then None else map_of (manifest w1) (rid, p))"
    by blast
  show ?case
    using step rest ok' b' b1 m' m1 by auto
qed

lemma gather_calls: "calls (snd (gather mk f xs st)) = calls st @ map mk xs"
  by (induction xs arbitrary: st) (simp_all add: split_beta)

lemma successful_products_Cons:
  "successful_products ((pid, qty) # ups) (res # rs) =
     (if failed res then [] else [pid]) @ successful_products ups rs"
  by (simp add: successful_products_def)

lemma reserve_tasks_ok:
  assumes sv: "reserve_stock sv = svc_reserve_stock now" and ok: "ledger_ok (world st) rid"
  shows "\<exists>rs st'. reserve_tasks sv rid ups st = (rs, st') \<and> ledger_ok (world st') rid
           \<and> (\<forall>p. base (world st') rid p = base (world st) rid p)
           \<and> (\<forall>p. map_of (manifest (world st')) (rid, p) \<noteq> None \<longrightarrow>
                  map_of (manifest (world st)) (rid, p) \<noteq> None
                  \<or> p \<in> set (successful_products ups rs))"
  using ok
proof (induction ups arbitrary: st)
  case Nil
  then show ?case by (simp add: reserve_tasks_def)
next
  case (Cons a ups)
  obtain pid qty where a: "a = (pid, qty)" by (cases a)
  have q: "0 \<le> \<bar>qty\<bar>" by simp
  from svc_reserve_step [OF Cons.prems q, of now pid] obtain b w1 where
    step: "svc_reserve_stock now rid pid \<bar>qty\<bar> (world st) = (Inr b, w1)"
    and ok1: "ledger_ok w1 rid"
    and b1: "\<And>p'. base w1 rid p' = base (world st) rid p'"
    and m1: "\<And>p'. map_of (manifest w1) (rid, p') =
        (if p' = pid \<and> b then Some (held (manifest (world st)) rid pid + \<bar>qty\<bar>)
         else map_of (manifest (world st)) (rid, p'))"
    by blast
  let ?st1 = "\<lparr>world = w1, calls = calls st @ [ReserveStock rid pid \<bar>qty\<bar>]\<rparr>"
  have ok1': "ledger_ok (world ?st1) rid" using ok1 by simp
  from Cons.IH [OF ok1'] obtain rs st' where
    rest: "reserve_tasks sv rid ups ?st1 = (rs, st')" and ok': "ledger_ok (world st') rid"
    and b': "\<forall>p. base (world st') rid p = base w1 rid p"
    and m': "\<forall>p. map_of (manifest (world st')) (rid, p) \<noteq> None \<longrightarrow>
                  map_of (manifest w1) (rid, p) \<noteq> None
                  \<or> p \<in> set (successful_products ups rs)"
    by auto
  have run: "reserve_tasks sv rid (a # ups) st = (Inr b # rs, st')"
    using step rest unfolding a by (simp add: reserve_tasks_def invoke_def sv)
  have m: "map_of (manifest (world st')) (rid, p) \<noteq> None \<longrightarrow>
             map_of (manifest (world st)) (rid, p) \<noteq> None
             \<or> p \<in> set (successful_products (a # ups) (Inr b # rs))" for p
    using m' [rule_format, of p] m1 [of p] unfolding a successful_products_Cons
    by (auto split: if_splits)
  show ?case using run ok' b' b1 m by auto
qed

lemma release_tasks_ok:
  assumes sv: "release_or_confirm_single sv = svc_release_or_confirm_single now"
    and ok: "ledger_ok (world st) rid"
  shows "\<exists>rs st'. release_tasks sv rid ps st = (rs, st') \<and> ledger_ok (world st') rid
           \<and> (\<forall>p. base (world st') rid p = base (world st) rid p)
           \<and> (\<forall>p. map_of (manifest (world st')) (rid, p) =
                  (if p \<in> set ps then None else map_of (manifest (world st)) (rid, p)))"
  using ok
proof (induction ps arbitrary: st)
  case Nil
  then show ?case by (simp add: release_tasks_def)
next
  case (Cons a ps)
  from svc_release_step [OF Cons.prems, of now a] obtain w1 where
    step: "svc_release_or_confirm_single now rid a False (world st) = (Inr (), w1)"
    and ok1: "ledger_ok w1 rid"
    and b1: "\<And>p'. base w1 rid p' = base (world st) rid p'"
    and m1: "\<And>p'. map_of (manifest w1) (rid, p') =
        (if p' = a then None else map_of (manifest (world st)) (rid, p'))"
    by blast
  let ?st1 = "\<lparr>world = w1, calls = calls st @ [ReleaseOrConfirmSingle rid a False]\<rparr>"
  have ok1': "ledger_ok (world ?st1) rid" using ok1 by simp
  from Cons.IH [OF ok1'] obtain rs st' where
    rest: "release_tasks sv rid ps ?st1 = (rs, st')" and ok': "ledger_ok (world st') rid"
    and b': "\<forall>p. base (world st') rid p = base w1 rid p"
    and m': "\<forall>p. map_of (manifest (world st')) (rid, p) =
                  (if p \<in> set ps then None else map_of (manifest w1) (rid, p))"
    by auto
  have run: "release_tasks sv rid (a # ps) st = (Inr () # rs, st')"
    using step rest by (simp add: release_tasks_def invoke_def sv)
  show ?case using run ok' b' b1 m' m1 by auto
qed

lemma fresh_iff: "fresh m rid \<longleftrightarrow> (\<forall>p. map_of m (rid, p) = None)"
  by (force simp: fresh_def map_of_eq_None_iff image_iff split: prod.splits)

lemma quantities_okD:
  assumes "quantities_ok c" "docs c p = Some d"
  obtains s r where "stock_of c p = Some s" "reserved_of c p = Some r" "0 \<le> r"
proof -
  from assms have "case (stock_quantity d, reserved_stock d) of
          (Some s, Some r) \<Rightarrow> 0 \<le> r | _ \<Rightarrow> False"
    by (auto simp: quantities_ok_def ran_def)
  then show ?thesis
    using that assms(2) by (auto simp: stock_of_def reserved_of_def split: option.splits)
qed

lemma ledger_ok_initial:
  assumes "failing (products w) = None" "quantities_ok (products w)" "fresh (manifest w) rid"
  shows "ledger_ok w rid" and "base w rid p = reserved_of (products w) p"
proof -
  have none: "map_of (manifest w) (rid, p') = None" for p'
    using assms(3) by (simp add: fresh_iff)
  then have h: "held (manifest w) rid p' = 0" for p' by (simp add: held_def)
  show "ledger_ok w rid"
    unfolding ledger_ok_def
  proof (intro conjI allI)
    show "failing (products w) = None" by fact
  next
    fix p'
    show "if docs (products w) p' = None
         then map_of (manifest w) (rid, p') = None
         else (case (stock_of (products w) p', reserved_of (products w) p') of
                 (Some s, Some r) \<Rightarrow>
                   0 \<le> held (manifest w) rid p' \<and> held (manifest w) rid p' \<le> r
               | _ \<Rightarrow> False)"
    proof (cases "docs (products w) p'")
      case None
      then show ?thesis using none by simp
    next
      case (Some d)
      from quantities_okD [OF assms(2) Some] obtain s r where
        "stock_of (products w) p' = Some s" "reserved_of (products w) p' = Some r" "0 \<le> r"
        by blast
      then show ?thesis using Some h by simp
    qed
  qed
  show "base w rid p = reserved_of (products w) p"
    using h by (simp add: base_def split: option.splits)
qed

lemma base_final:
  assumes "\<And>p'. map_of (manifest w) (rid, p') = None"
  shows "base w rid p = reserved_of (products w) p"
  using assms by (simp add: base_def held_def split: option.splits)

lemma ledger_ok_cong:
  "products w' = products w \<Longrightarrow> manifest w' = manifest w \<Longrightarrow> ledger_ok w' rid = ledger_ok w rid"
  by (simp add: ledger_ok_def cong: option.case_cong if_cong)

lemma base_cong:
  "products w' = products w \<Longrightarrow> manifest w' = manifest w \<Longrightarrow> base w' rid p = base w rid p"
  by (simp add: base_def cong: option.case_cong)

lemma reserved_products_mem:
  "map_of m (rid, p) \<noteq> None \<Longrightarrow> p \<in> set (reserved_products m rid)"
  by (force simp: reserved_products_def image_iff dest!: map_of_SomeD)

lemma reserve_tasks_calls:
  "calls (snd (reserve_tasks sv rid ups st)) =
     calls st @ map (\<lambda>(pid, qty). ReserveStock rid pid \<bar>qty\<bar>) ups"
  by (simp add: reserve_tasks_def gather_calls)

lemma release_tasks_calls:
  "calls (snd (release_tasks sv rid ps st)) =
     calls st @ map (\<lambda>pid. ReleaseOrConfirmSingle rid pid False) ps"
  by (simp add: release_tasks_def gather_calls)

lemma create_order_conflict:
  assumes "failed_reservations ups (fst (reserve_tasks sv rid ups st)) \<noteq> []"
  shows "fst (create_order sv rid ups data st) = Inl (HTTPException 409)
       \<and> calls_since st (snd (create_order sv rid ups data st))
           = map (\<lambda>(pid, qty). ReserveStock rid pid \<bar>qty\<bar>) ups
             @ map (\<lambda>pid. ReleaseOrConfirmSingle rid pid False)
                 (successful_products ups (fst (reserve_tasks sv rid ups st)))"
  using assms
  by (simp add: create_order_def split_beta calls_since_def reserve_tasks_calls
      release_tasks_calls)

lemma create_order_persist_caught:
  assumes "failed_reservations ups (fst (reserve_tasks sv rid ups st)) = []"
    and "fst (order_create sv data (world (snd (reserve_tasks sv rid ups st)))) = Inl e"
    and "e = ValueError \<or> e = RuntimeError"
  shows "calls_since st (snd (create_order sv rid ups data st))
           = map (\<lambda>(pid, qty). ReserveStock rid pid \<bar>qty\<bar>) ups
             @ [OrderCreate data, ReleaseReservation rid]"
  using assms
  by (auto simp: create_order_def split_beta calls_since_def reserve_tasks_calls
      split: sum.splits)

lemma create_order_persist_other:
  assumes "failed_reservations ups (fst (reserve_tasks sv rid ups st)) = []"
    and "fst (order_create sv data (world (snd (reserve_tasks sv rid ups st)))) = Inl e"
    and "e \<noteq> ValueError" "e \<noteq> RuntimeError"
  shows "fst (create_order sv rid ups data st) = Inl e
       \<and> calls_since st (snd (create_order sv rid ups data st))
           = map (\<lambda>(pid, qty). ReserveStock rid pid \<bar>qty\<bar>) ups @ [OrderCreate data]"
  using assms
  by (auto simp: create_order_def split_beta calls_since_def reserve_tasks_calls
      split: sum.splits)

lemma rollback_restores:
  fixes sv :: "ledger services"
  assumes rs: "reserve_stock sv = svc_reserve_stock now"
    and rl: "release_or_confirm_single sv = svc_release_or_confirm_single now"
    and f: "failing (products (world st)) = None"
    and qo: "quantities_ok (products (world st))"
    and fr: "fresh (manifest (world st)) rid"
    and fail: "failed_reservations ups (fst (reserve_tasks sv rid ups st)) \<noteq> []"
  shows "reserved_of (products (world (snd (create_order sv rid ups data st)))) p
           = reserved_of (products (world st)) p"
proof -
  have ok0: "ledger_ok (world st) rid"
    and b0: "\<And>p. base (world st) rid p = reserved_of (products (world st)) p"
    using ledger_ok_initial [OF f qo fr] by auto
  have none0: "map_of (manifest (world st)) (rid, p) = None" for p
    using fr by (simp add: fresh_iff)
  from reserve_tasks_ok [OF rs ok0, of ups] obtain rs1 st1 where
    run1: "reserve_tasks sv rid ups st = (rs1, st1)" and ok1: "ledger_ok (world st1) rid"
    and b1: "\<forall>p. base (world st1) rid p = base (world st) rid p"
    and m1: "\<forall>p. map_of (manifest (world st1)) (rid, p) \<noteq> None \<longrightarrow>
                  map_of (manifest (world st)) (rid, p) \<noteq> None
                  \<or> p \<in> set (successful_products ups rs1)"
    by auto
  have fail': "failed_reservations ups rs1 \<noteq> []" using fail run1 by simp
  from release_tasks_ok [OF rl ok1, of "successful_products ups rs1"] obtain rs2 st2 where
    run2: "release_tasks sv rid (successful_products ups rs1) st1 = (rs2, st2)"
    and b2: "\<forall>p. base (world st2) rid p = base (world st1) rid p"
    and m2: "\<forall>p. map_of (manifest (world st2)) (rid, p) =
                  (if p \<in> set (successful_products ups rs1) then None
                   else map_of (manifest (world st1)) (rid, p))"
    by auto
  have none2: "map_of (manifest (world st2)) (rid, p) = None" for p
    using m2 m1 none0 by auto
  have r2: "reserved_of (products (world st2)) p = reserved_of (products (world st)) p"
    using base_final [of "world st2" rid p] none2 b2 b1 b0 by simp
  show ?thesis
  proof (cases "successful_products ups rs1 = []")
    case True
    then have st2: "st2 = st1" using run2 by (simp add: release_tasks_def)
    have "create_order sv rid ups data st = (Inl (HTTPException 409), st1)"
      using run1 fail' True by (simp add: create_order_def)
    then show ?thesis using r2 unfolding st2 by simp
  next
    case False
    have "create_order sv rid ups data st = (Inl (HTTPException 409), st2)"
      using run1 fail' False run2 by (simp add: create_order_def)
    then show ?thesis using r2 by simp
  qed
qed

lemma compensate_restores:
  fixes sv :: "ledger services"
  assumes rs: "reserve_stock sv = svc_reserve_stock now"
    and rr: "release_reservation sv = svc_release_reservation now"
    and f: "failing (products (world st)) = None"
    and qo: "quantities_ok (products (world st))"
    and fr: "fresh (manifest (world st)) rid"
    and ll: "leaves_ledger (order_create sv data)"
    and all: "failed_reservations ups (fst (reserve_tasks sv rid ups st)) = []"
    and cr: "fst (order_create sv data (world (snd (reserve_tasks sv rid ups st)))) = Inl e"
    and e: "e = ValueError \<or> e = RuntimeError"
  shows "fst (create_order sv rid ups data st) = Inl (HTTPException 500)
       \<and> (\<forall>p. reserved_of (products (world (snd (create_order sv rid ups data st)))) p
               = reserved_of (products (world st)) p)
       \<and> fresh (manifest (world (snd (create_order sv rid ups data st)))) rid"
proof -
  have ok0: "ledger_ok (world st) rid"
    and b0: "\<And>p. base (world st) rid p = reserved_of (products (world st)) p"
    using ledger_ok_initial [OF f qo fr] by auto
  from reserve_tasks_ok [OF rs ok0, of ups] obtain rs1 st1 where
    run1: "reserve_tasks sv rid ups st = (rs1, st1)" and ok1: "ledger_ok (world st1) rid"
    and b1: "\<forall>p. base (world st1) rid p = base (world st) rid p"
    by auto
  have all': "failed_reservations ups rs1 = []" using all run1 by simp
  obtain w2 where cr2: "order_create sv data (world st1) = (Inl e, w2)"
    using cr run1 by (cases "order_create sv data (world st1)") simp
  have same: "products w2 = products (world st1)" "manifest w2 = manifest (world st1)"
    using ll cr2 unfolding leaves_ledger_def by (metis snd_conv)+
  have ok2: "ledger_ok w2 rid" using ok1 ledger_ok_cong [OF same] by simp
  have b2: "base w2 rid p = base (world st1) rid p" for p by (rule base_cong [OF same])
  from each_item_release [OF ok2, of now "reserved_products (manifest w2) rid"] obtain w3 where
    rel: "svc_release_reservation now rid w2 = (Inr (), w3)"
    and b3: "\<forall>p. base w3 rid p = base w2 rid p"
    and m3: "\<forall>p. map_of (manifest w3) (rid, p) =
                (if p \<in> set (reserved_products (manifest w2) rid) then None
                 else map_of (manifest w2) (rid, p))"
    unfolding svc_release_reservation_def by blast
  have none3: "map_of (manifest w3) (rid, p) = None" for p
  proof (cases "map_of (manifest w2) (rid, p)")
    case None
    then show ?thesis using m3 by simp
  next
    case (Some q)
    then have "p \<in> set (reserved_products (manifest w2) rid)"
      by (intro reserved_products_mem) simp
    then show ?thesis using m3 by simp
  qed
  have r3: "reserved_of (products w3) p = reserved_of (products (world st)) p" for p
    using base_final [of w3 rid p] none3 b3 b2 b1 b0 by simp
  have fr3: "fresh (manifest w3) rid" using none3 by (simp add: fresh_iff)
  have "create_order sv rid ups data st =
      (Inl (HTTPException 500),
       \<lparr>world = w3, calls = (calls st1 @ [OrderCreate data]) @ [ReleaseReservation rid]\<rparr>)"
    using run1 all' cr2 e rel rr by (auto simp: create_order_def invoke_def)
  then show ?thesis using r3 fr3 by simp
qed

lemma two_products_simps:
  "failing two_products = None"
  "stock_of two_products ''P1'' = Some 5" "reserved_of two_products ''P1'' = Some 0"
  "stock_of two_products ''P2'' = Some 1" "reserved_of two_products ''P2'' = Some 0"
  by (simp_all add: two_products_def product_doc_def stock_of_def reserved_of_def
      stock_quantity_def reserved_stock_def int_field_def)

lemma quantities_ok_two_products: "quantities_ok two_products"
  by (auto simp: quantities_ok_def two_products_def product_doc_def ran_def
      stock_quantity_def reserved_stock_def int_field_def split: if_splits)

lemma reserve_in_shop:
  "fst (svc_reserve_stock 0 rid ''P1'' 2 \<lparr>products = two_products, manifest = []\<rparr>) = Inr True"
  "fst (svc_reserve_stock 0 rid ''P2'' 3
          (snd (svc_reserve_stock 0 rid ''P1'' 2 \<lparr>products = two_products, manifest = []\<rparr>)))
     = Inr False"
  "fst (svc_reserve_stock 0 rid ''P2'' 1
          (snd (svc_reserve_stock 0 rid ''P1'' 2 \<lparr>products = two_products, manifest = []\<rparr>)))
     = Inr True"
  by (simp_all add: svc_reserve_stock_def update_stock_atomic_def find_one_and_update_def
      stock_query_def stock_update_op_def matches_def two_products_def product_doc_def)

lemma shop_simps:
  "world (shop c m) = \<lparr>products = c, manifest = m\<rparr>" "calls (shop c m) = []"
  by (simp_all add: shop_def)

lemma reserved_after_reserves_in_shop:
  "reserved_of (products (snd (svc_reserve_stock 0 rid ''P2'' 3
      (snd (svc_reserve_stock 0 rid ''P1'' 2 \<lparr>products = two_products, manifest = []\<rparr>)))))
      ''P1'' = Some 2"
  "reserved_of (products (snd (svc_reserve_stock 0 rid ''P2'' 1
      (snd (svc_reserve_stock 0 rid ''P1'' 2 \<lparr>products = two_products, manifest = []\<rparr>)))))
      ''P1'' = Some 2"
  by (simp_all add: svc_reserve_stock_def update_stock_atomic_def find_one_and_update_def
      stock_query_def stock_update_op_def matches_def two_products_def product_doc_def
      reserved_of_def reserved_stock_def int_field_def)

lemma reserve_tasks_of_shop:
  assumes "reserve_stock sv = svc_reserve_stock 0"
  shows "fst (reserve_tasks sv rid [(''P1'', - 2), (''P2'', - 3)] (shop two_products []))
           = [Inr True, Inr False]"
    and "fst (reserve_tasks sv rid [(''P1'', - 2), (''P2'', - 1)] (shop two_products []))
           = [Inr True, Inr True]"
    and "world (snd (reserve_tasks sv rid [(''P1'', - 2), (''P2'', - 3)] (shop two_products [])))
           = snd (svc_reserve_stock 0 rid ''P2'' 3
               (snd (svc_reserve_stock 0 rid ''P1'' 2 \<lparr>products = two_products, manifest = []\<rparr>)))"
    and "world (snd (reserve_tasks sv rid [(''P1'', - 2), (''P2'', - 1)] (shop two_products [])))
           = snd (svc_reserve_stock 0 rid ''P2'' 1
               (snd (svc_reserve_stock 0 rid ''P1'' 2 \<lparr>products = two_products, manifest = []\<rparr>)))"
  using assms by (simp_all add: reserve_tasks_def split_beta shop_simps reserve_in_shop)

lemma release_fails_simps:
  "reserve_stock shop_services_release_fails = svc_reserve_stock 0"
  "release_or_confirm_single shop_services_release_fails rid p confirm w = (Inl PyMongoError, w)"
  by (simp_all add: shop_services_release_fails_def shop_services_def)

lemma release_tasks_fail_world:
  "world (snd (release_tasks shop_services_release_fails rid ps st)) = world st"
  unfolding release_tasks_def
  by (induction ps arbitrary: st) (simp_all add: split_beta release_fails_simps)

section \<open>Order creation: reservation failure and persistence failure\<close>

text \<open>
  Claim C2, as the code has it. Whatever the injected services do: if at least one
  reserve attempt of the batch fails, \<open>create_order\<close> ends with \<open>HTTPException(409)\<close>,
  and the calls it has issued are the reserve attempts followed by one release for every
  item whose attempt succeeded, and nothing else, so no order was saved. The results of
  the releases are not looked at. When the reservation service is the one of the
  specification, the ledger answers, every product carries its quantities with a
  non-negative reserved one and the reservation id is new, every release succeeds and
  the reserved quantity of every product is afterwards what it was before the call.
\<close>

theorem failed_reservation_conflict_and_rollback:
  fixes sv :: "ledger services"
  assumes "failed_reservations ups (fst (reserve_tasks sv rid ups st)) \<noteq> []"
  shows "fst (create_order sv rid ups data st) = Inl (HTTPException 409)
       \<and> calls_since st (snd (create_order sv rid ups data st))
           = map (\<lambda>(pid, qty). ReserveStock rid pid \<bar>qty\<bar>) ups
             @ map (\<lambda>pid. ReleaseOrConfirmSingle rid pid False)
                 (successful_products ups (fst (reserve_tasks sv rid ups st)))
       \<and> (reserve_stock sv = svc_reserve_stock now \<longrightarrow>
          release_or_confirm_single sv = svc_release_or_confirm_single now \<longrightarrow>
          failing (products (world st)) = None \<longrightarrow>
          quantities_ok (products (world st)) \<longrightarrow>
          fresh (manifest (world st)) rid \<longrightarrow>
          (\<forall>p. reserved_of (products (world (snd (create_order sv rid ups data st)))) p
                 = reserved_of (products (world st)) p))"
  using create_order_conflict [OF assms, of data] rollback_restores [OF _ _ _ _ _ assms, of now data]
  by blast

text \<open>
  Scenario B of the specification: 2 units of a product with 5 on hand and 3 units of
  a product with 1 on hand.
\<close>

theorem failed_reservation_conflict_and_rollback_witness:
  "fst (create_order (shop_services (demo_order ''pending'') RuntimeError)
          ''ORD-000001'' [(''P1'', - 2), (''P2'', - 3)] [] (shop two_products []))
     = Inl (HTTPException 409)
   \<and> calls_since (shop two_products [])
        (snd (create_order (shop_services (demo_order ''pending'') RuntimeError)
          ''ORD-000001'' [(''P1'', - 2), (''P2'', - 3)] [] (shop two_products [])))
     = [ReserveStock ''ORD-000001'' ''P1'' 2, ReserveStock ''ORD-000001'' ''P2'' 3,
        ReleaseOrConfirmSingle ''ORD-000001'' ''P1'' False]
   \<and> reserved_of (products (world
        (snd (create_order (shop_services (demo_order ''pending'') RuntimeError)
          ''ORD-000001'' [(''P1'', - 2), (''P2'', - 3)] [] (shop two_products []))))) ''P1''
     = Some 0
   \<and> reserved_of (products (world
        (snd (create_order (shop_services (demo_order ''pending'') RuntimeError)
          ''ORD-000001'' [(''P1'', - 2), (''P2'', - 3)] [] (shop two_products []))))) ''P2''
     = Some 0"
  using failed_reservation_conflict_and_rollback
      [of "[(''P1'', - 2), (''P2'', - 3)]" "shop_services (demo_order ''pending'') RuntimeError"
          "''ORD-000001''" "shop two_products []" "[]" 0]
  by (simp add: reserve_tasks_of_shop failed_reservations_def successful_products_def
      shop_simps two_products_simps quantities_ok_two_products fresh_def shop_services_simps)

text \<open>
  The same batch when the releases fail: the result is the same conflict error after the
  same calls, and the 2 units of the first product stay reserved.
\<close>

theorem failed_release_leaves_stock_reserved:
  "reserved_of two_products ''P1'' = Some 0
   \<and> fst (create_order shop_services_release_fails
          ''ORD-000001'' [(''P1'', - 2), (''P2'', - 3)] [] (shop two_products []))
     = Inl (HTTPException 409)
   \<and> calls (snd (create_order shop_services_release_fails
          ''ORD-000001'' [(''P1'', - 2), (''P2'', - 3)] [] (shop two_products [])))
     = [ReserveStock ''ORD-000001'' ''P1'' 2, ReserveStock ''ORD-000001'' ''P2'' 3,
        ReleaseOrConfirmSingle ''ORD-000001'' ''P1'' False]
   \<and> reserved_of (products (world
        (snd (create_order shop_services_release_fails
          ''ORD-000001'' [(''P1'', - 2), (''P2'', - 3)] [] (shop two_products []))))) ''P1''
     = Some 2"
  by (simp add: create_order_def split_beta reserve_tasks_of_shop release_fails_simps
      failed_reservations_def successful_products_def release_tasks_fail_world
      release_tasks_calls reserve_tasks_calls shop_simps two_products_simps
      reserved_after_reserves_in_shop)

text \<open>
  Claim C4, as the code has it. Every reserve attempt of the batch has succeeded and
  saving the order raises \<open>e\<close>. If \<open>e\<close> is a \<open>ValueError\<close> or a \<open>RuntimeError\<close>, the two
  kinds the method catches, \<open>create_order\<close> calls \<open>release_reservation\<close> with the order
  reference right after the failed save; when moreover the reservation service is the
  one of the specification, the ledger answers, every product carries its quantities
  with a non-negative reserved one, the reservation id is new and the failed save has
  not written the ledger, the method ends with \<open>HTTPException(500)\<close>, the reserved
  quantity of every product is what it was before the call and the reservation holds
  nothing. If \<open>e\<close> is of another kind, it leaves the method as it is and no release is
  called.
\<close>

theorem persist_failure_compensation:
  fixes sv :: "ledger services"
  assumes "failed_reservations ups (fst (reserve_tasks sv rid ups st)) = []"
    and "fst (order_create sv data (world (snd (reserve_tasks sv rid ups st)))) = Inl e"
  shows "(e = ValueError \<or> e = RuntimeError \<longrightarrow>
            calls_since st (snd (create_order sv rid ups data st))
              = map (\<lambda>(pid, qty). ReserveStock rid pid \<bar>qty\<bar>) ups
                @ [OrderCreate data, ReleaseReservation rid]
          \<and> (reserve_stock sv = svc_reserve_stock now \<longrightarrow>
             release_reservation sv = svc_release_reservation now \<longrightarrow>
             failing (products (world st)) = None \<longrightarrow>
             quantities_ok (products (world st)) \<longrightarrow>
             fresh (manifest (world st)) rid \<longrightarrow>
             leaves_ledger (order_create sv data) \<longrightarrow>
             fst (create_order sv rid ups data st) = Inl (HTTPException 500)
             \<and> (\<forall>p. reserved_of (products (world (snd (create_order sv rid ups data st)))) p
                     = reserved_of (products (world st)) p)
             \<and> fresh (manifest (world (snd (create_order sv rid ups data st)))) rid))
       \<and> (e \<noteq> ValueError \<and> e \<noteq> RuntimeError \<longrightarrow>
            fst (create_order sv rid ups data st) = Inl e
          \<and> calls_since st (snd (create_order sv rid ups data st))
              = map (\<lambda>(pid, qty). ReserveStock rid pid \<bar>qty\<bar>) ups @ [OrderCreate data])"
proof (intro conjI impI)
  assume e: "e = ValueError \<or> e = RuntimeError"
  show "calls_since st (snd (create_order sv rid ups data st))
              = map (\<lambda>(pid, qty). ReserveStock rid pid \<bar>qty\<bar>) ups
                @ [OrderCreate data, ReleaseReservation rid]"
    using assms e by (rule create_order_persist_caught)
next
  assume e: "e = ValueError \<or> e = RuntimeError"
    and h: "reserve_stock sv = svc_reserve_stock now"
      "release_reservation sv = svc_release_reservation now"
      "failing (products (world st)) = None"
      "quantities_ok (products (world st))"
      "fresh (manifest (world st)) rid"
      "leaves_ledger (order_create sv data)"
  note r = compensate_restores [OF h assms e]
  show "fst (create_order sv rid ups data st) = Inl (HTTPException 500)" using r by blast
  show "\<forall>p. reserved_of (products (world (snd (create_order sv rid ups data st)))) p
                     = reserved_of (products (world st)) p" using r by blast
  show "fresh (manifest (world (snd (create_order sv rid ups data st)))) rid" using r by blast
next
  assume e: "e \<noteq> ValueError \<and> e \<noteq> RuntimeError"
  then have e1: "e \<noteq> ValueError" and e2: "e \<noteq> RuntimeError" by auto
  note r = create_order_persist_other [OF assms e1 e2]
  show "fst (create_order sv rid ups data st) = Inl e" using r by blast
  show "calls_since st (snd (create_order sv rid ups data st))
              = map (\<lambda>(pid, qty). ReserveStock rid pid \<bar>qty\<bar>) ups @ [OrderCreate data]"
    using r by blast
qed

theorem persist_failure_compensation_witness:
  "fst (create_order (shop_services (demo_order ''pending'') RuntimeError)
          ''ORD-000001'' [(''P1'', - 2), (''P2'', - 1)] [] (shop two_products []))
     = Inl (HTTPException 500)
   \<and> calls_since (shop two_products [])
        (snd (create_order (shop_services (demo_order ''pending'') RuntimeError)
          ''ORD-000001'' [(''P1'', - 2), (''P2'', - 1)] [] (shop two_products [])))
     = [ReserveStock ''ORD-000001'' ''P1'' 2, ReserveStock ''ORD-000001'' ''P2'' 1,
        OrderCreate [], ReleaseReservation ''ORD-000001'']
   \<and> reserved_of (products (world
        (snd (create_order (shop_services (demo_order ''pending'') RuntimeError)
          ''ORD-000001'' [(''P1'', - 2), (''P2'', - 1)] [] (shop two_products []))))) ''P1''
     = Some 0
   \<and> reserved_of (products (world
        (snd (create_order (shop_services (demo_order ''pending'') RuntimeError)
          ''ORD-000001'' [(''P1'', - 2), (''P2'', - 1)] [] (shop two_products []))))) ''P2''
     = Some 0
   \<and> calls_since (shop two_products [])
        (snd (create_order (shop_services (demo_order ''pending'') OtherException)
          ''ORD-000001'' [(''P1'', - 2), (''P2'', - 1)] [] (shop two_products [])))
     = [ReserveStock ''ORD-000001'' ''P1'' 2, ReserveStock ''ORD-000001'' ''P2'' 1,
        OrderCreate []]"
  using persist_failure_compensation
      [of "[(''P1'', - 2), (''P2'', - 1)]" "shop_services (demo_order ''pending'') RuntimeError"
          "''ORD-000001''" "shop two_products []" "[]" RuntimeError 0]
    persist_failure_compensation
      [of "[(''P1'', - 2), (''P2'', - 1)]" "shop_services (demo_order ''pending'') OtherException"
          "''ORD-000001''" "shop two_products []" "[]" OtherException 0]
  by (simp add: reserve_tasks_of_shop failed_reservations_def
      shop_simps two_products_simps quantities_ok_two_products fresh_def leaves_ledger_def
      shop_services_simps)

text \<open>
  A save that fails with an error of the database driver: the error leaves the method,
  no release is called, and the 2 units of the first product stay reserved although no
  order exists.
\<close>

theorem uncaught_persist_failure_keeps_reservation:
  "reserved_of two_products ''P1'' = Some 0
   \<and> fst (create_order (shop_services (demo_order ''pending'') PyMongoError)
          ''ORD-000001'' [(''P1'', - 2), (''P2'', - 1)] [] (shop two_products []))
     = Inl PyMongoError
   \<and> calls (snd (create_order (shop_services (demo_order ''pending'') PyMongoError)
          ''ORD-000001'' [(''P1'', - 2), (''P2'', - 1)] [] (shop two_products [])))
     = [ReserveStock ''ORD-000001'' ''P1'' 2, ReserveStock ''ORD-000001'' ''P2'' 1,
        OrderCreate []]
   \<and> reserved_of (products (world
        (snd (create_order (shop_services (demo_order ''pending'') PyMongoError)
          ''ORD-000001'' [(''P1'', - 2), (''P2'', - 1)] [] (shop two_products []))))) ''P1''
     = Some 2"
  by (simp add: create_order_def split_beta reserve_tasks_of_shop shop_services_simps
      failed_reservations_def reserve_tasks_calls shop_simps two_products_simps
      reserved_after_reserves_in_shop)


end
